theory Spec2Isabelle
  imports Complex_Main
begin

section \<open>Data model of \<^verbatim>\<open>src/home/components/AudioPlayer.tsx\<close>\<close>

text \<open>
  A JavaScript number is modelled by the real number it stands for; the finite doubles
  are the reals of which \<open>isDouble\<close> below holds. Comparison, \<^verbatim>\<open>%\<close> and
  \<^verbatim>\<open>Math.floor\<close> are exact in IEEE arithmetic and exact here; division rounds its
  exact quotient to the nearest double, ties to even (\<open>fdiv\<close> below). \<^verbatim>\<open>NaN\<close>,
  the infinities and the sign of zero are outside the model. An \<^verbatim>\<open>Audio.Sound\<close>
  object is modelled by its identity, a natural number: the n-th object constructed by
  \<^verbatim>\<open>new Audio.Sound()\<close>.
\<close>

type_synonym Sound = nat

text \<open>\<^verbatim>\<open>interface Props\<close> (lines 9-13); the optional \<^verbatim>\<open>style\<close> is layout only.\<close>

record Source =
  uri :: string

record Props =
  isAudioEnabled :: bool
  source :: Source

text \<open>
  Of a JavaScript \<^verbatim>\<open>Error\<close> object the component reads the \<^verbatim>\<open>message\<close> only.
\<close>

record Error =
  message :: string

text \<open>
  The values that can reach the error state. The source declares
  \<^verbatim>\<open>type ErrorState = Error | null\<close> (line 15), but what it stores is
  \<^verbatim>\<open>status.error\<close> of a status that has no type annotation (lines 38 and 41) and
  the reason of a rejected promise (line 64), so at run time the cell holds whatever
  value it was given: \<^verbatim>\<open>undefined\<close>, \<^verbatim>\<open>null\<close>, a boolean, a number, a string,
  an \<^verbatim>\<open>Error\<close> object, or an object without a \<^verbatim>\<open>message\<close>.
\<close>

datatype JSValue =
    Undefined
  | Null
  | BooleanValue bool
  | NumberValue real
  | StringValue string
  | ErrorObject Error
  | OtherObject

type_synonym ErrorState = JSValue

text \<open>
  The seven numeric and boolean fields that a loaded status carries and that the loaded
  \<^verbatim>\<open>PlaybackState\<close> (lines 17-29) repeats; the loaded state adds the \<^verbatim>\<open>sound\<close>,
  and the tag \<^verbatim>\<open>isLoaded\<close> is the constructor of the datatype.
\<close>

record StatusFields =
  positionMillis :: real
  durationMillis :: real
  isPlaying :: bool
  isLooping :: bool
  isMuted :: bool
  rate :: real
  shouldCorrectPitch :: bool

record LoadedPlayback = StatusFields +
  sound :: Sound

datatype PlaybackState = Unloaded | Loaded LoadedPlayback

fun isLoaded :: "PlaybackState \<Rightarrow> bool" where
  "isLoaded Unloaded = False"
| "isLoaded (Loaded p) = True"

text \<open>
  The status record the media runtime delivers to the callback: either not loaded, with
  the value of its \<^verbatim>\<open>error\<close> property (\<open>Undefined\<close> when it has none), or
  loaded, with the seven fields.
\<close>

datatype PlaybackStatus = StatusNotLoaded ErrorState | StatusLoaded StatusFields

text \<open>
  \<^verbatim>\<open>Audio.PitchCorrectionQuality\<close> is an enumeration of the media library; the
  component names its member \<^verbatim>\<open>High\<close> only.
\<close>

datatype PitchCorrectionQuality = Low | Medium | High

text \<open>
  The methods of \<^verbatim>\<open>Audio.Sound\<close> that the component calls. All of them are
  fire-and-forget: the component reads no result, so a call is recorded in a trace.
  \<^verbatim>\<open>SetOnPlaybackStatusUpdate True\<close> installs the callback of line 60,
  \<^verbatim>\<open>SetOnPlaybackStatusUpdate False\<close> is the call with \<^verbatim>\<open>null\<close> of line 68.
\<close>

datatype SoundCall =
    SetOnPlaybackStatusUpdate bool
  | LoadAsync Source nat
  | UnloadAsync
  | PauseAsync
  | PlayFromPositionAsync real
  | PlayAsync
  | SetIsLoopingAsync bool
  | SetRateAsync real bool PitchCorrectionQuality
  | SetIsMutedAsync bool

text \<open>
  Where the component is in its life, as React drives it: not yet mounted, mounted with
  the props of its last render and the sound that the pending cleanup closure of the
  effect captured, or unmounted.
\<close>

datatype Phase = Fresh | Mounted Props Sound | Gone

text \<open>
  The state the component's code reads and writes: the two \<^verbatim>\<open>useState\<close> cells
  (lines 35-36), the trace of the calls made on sound objects, the number of sound
  objects constructed so far, the sounds whose status callback is installed, and the phase.
\<close>

record World =
  error :: ErrorState
  playback :: PlaybackState
  calls :: "(Sound \<times> SoundCall) list"
  created :: nat
  listening :: "Sound list"
  phase :: Phase

definition initialErrorState :: ErrorState where
  "initialErrorState = Null"

definition initialPlaybackState :: PlaybackState where
  "initialPlaybackState = Unloaded"

definition initialWorld :: World where
  "initialWorld = \<lparr>error = initialErrorState, playback = initialPlaybackState,
     calls = [], created = 0, listening = [], phase = Fresh\<rparr>"

section \<open>The status projector\<close>

text \<open>\<^verbatim>\<open>handlePlaybackStatusUpdate\<close> (lines 38-56).\<close>

fun handlePlaybackStatusUpdate :: "Sound \<Rightarrow> PlaybackStatus \<Rightarrow> World \<Rightarrow> World" where
  "handlePlaybackStatusUpdate sd (StatusNotLoaded e) w =
     w\<lparr>playback := Unloaded, error := e\<rparr>"
| "handlePlaybackStatusUpdate sd (StatusLoaded status) w =
     w\<lparr>playback := Loaded \<lparr>
          positionMillis = positionMillis status,
          durationMillis = durationMillis status,
          isPlaying = isPlaying status,
          isLooping = isLooping status,
          isMuted = isMuted status,
          rate = rate status,
          shouldCorrectPitch = shouldCorrectPitch status,
          sound = sd\<rparr>,
        error := Null\<rparr>"

section \<open>The control dispatcher\<close>

text \<open>A method call on a sound object appends to the trace and changes nothing else.\<close>

definition callSound :: "Sound \<Rightarrow> SoundCall \<Rightarrow> World \<Rightarrow> World" where
  "callSound sd c w = w\<lparr>calls := calls w @ [(sd, c)]\<rparr>"

text \<open>\<^verbatim>\<open>onPress\<close> of the play button (lines 81-91).\<close>

definition playOnPress :: "World \<Rightarrow> World" where
  "playOnPress w =
     (case playback w of
        Unloaded \<Rightarrow> w
      | Loaded p \<Rightarrow>
          if isPlaying p then callSound (sound p) PauseAsync w
          else if positionMillis p < durationMillis p
            then callSound (sound p) (PlayFromPositionAsync 0) w
          else callSound (sound p) PlayAsync w)"

text \<open>\<^verbatim>\<open>onPress\<close> of Repeat (lines 110-114).\<close>

definition repeatOnPress :: "World \<Rightarrow> World" where
  "repeatOnPress w =
     (case playback w of
        Unloaded \<Rightarrow> w
      | Loaded p \<Rightarrow> callSound (sound p) (SetIsLoopingAsync (\<not> isLooping p)) w)"

text \<open>\<^verbatim>\<open>onPress\<close> of Slower (lines 121-130).\<close>

definition slowerOnPress :: "World \<Rightarrow> World" where
  "slowerOnPress w =
     (case playback w of
        Unloaded \<Rightarrow> w
      | Loaded p \<Rightarrow>
          (let newRate = (if rate p < 1 then 1 else 0.5)
           in callSound (sound p) (SetRateAsync newRate (shouldCorrectPitch p) High) w))"

text \<open>\<^verbatim>\<open>onPress\<close> of Faster (lines 137-146).\<close>

definition fasterOnPress :: "World \<Rightarrow> World" where
  "fasterOnPress w =
     (case playback w of
        Unloaded \<Rightarrow> w
      | Loaded p \<Rightarrow>
          (let newRate = (if rate p > 1 then 1 else 2)
           in callSound (sound p) (SetRateAsync newRate (shouldCorrectPitch p) High) w))"

text \<open>\<^verbatim>\<open>onPress\<close> of Correct Pitch (lines 153-161).\<close>

definition pitchOnPress :: "World \<Rightarrow> World" where
  "pitchOnPress w =
     (case playback w of
        Unloaded \<Rightarrow> w
      | Loaded p \<Rightarrow>
          callSound (sound p) (SetRateAsync (rate p) (\<not> shouldCorrectPitch p) High) w)"

text \<open>\<^verbatim>\<open>onPress\<close> of Mute (lines 168-172).\<close>

definition muteOnPress :: "World \<Rightarrow> World" where
  "muteOnPress w =
     (case playback w of
        Unloaded \<Rightarrow> w
      | Loaded p \<Rightarrow> callSound (sound p) (SetIsMutedAsync (\<not> isMuted p)) w)"

datatype Control = PlayButton | Repeat | Slower | Faster | CorrectPitch | Mute

fun onPress :: "Control \<Rightarrow> World \<Rightarrow> World" where
  "onPress PlayButton = playOnPress"
| "onPress Repeat = repeatOnPress"
| "onPress Slower = slowerOnPress"
| "onPress Faster = fasterOnPress"
| "onPress CorrectPitch = pitchOnPress"
| "onPress Mute = muteOnPress"

section \<open>Numbers: rounding to a double\<close>

text \<open>The number of binary digits of a natural number.\<close>

fun bitLength :: "nat \<Rightarrow> nat" where
  "bitLength n = (if n = 0 then 0 else Suc (bitLength (n div 2)))"

declare bitLength.simps [simp del]

text \<open>
  The binary exponent of a positive real \<open>x\<close>: the \<open>e\<close> with \<open>2\<^sup>e \<le> x < 2\<^sup>e\<^sup>+\<^sup>1\<close>,
  computed from the binary digits of the integer part of \<open>x\<close>, or of \<open>1 / x\<close> below 1.
\<close>

definition binExp :: "real \<Rightarrow> int" where
  "binExp x =
     (if 1 \<le> x then int (bitLength (nat \<lfloor>x\<rfloor>)) - 1
      else - int (bitLength (nat (\<lceil>1 / x\<rceil> - 1))))"

text \<open>
  The exponent of the unit in the last place of the doubles around a positive \<open>x\<close>:
  53 significant bits, and never below the subnormal spacing \<open>2\<^sup>-\<^sup>1\<^sup>0\<^sup>7\<^sup>4\<close>.
\<close>

definition ulpExp :: "real \<Rightarrow> int" where
  "ulpExp x = max (binExp x - 52) (- 1074)"

text \<open>Rounding to the nearest integer, a tie going to the even one.\<close>

definition roundHalfEven :: "real \<Rightarrow> int" where
  "roundHalfEven x =
     (let f = \<lfloor>x\<rfloor>; r = x - of_int f
      in if r < 1 / 2 then f
         else if 1 / 2 < r then f + 1
         else if even f then f else f + 1)"

text \<open>
  The double nearest to a real, ties to even, as IEEE 754 rounds the exact result of an
  operation. Results beyond the largest double, which IEEE arithmetic turns into an
  infinity, are outside the model; no quotient below reaches them.
\<close>

definition roundPositive :: "real \<Rightarrow> real" where
  "roundPositive x = of_int (roundHalfEven (x / 2 powi ulpExp x)) * 2 powi ulpExp x"

definition roundToDouble :: "real \<Rightarrow> real" where
  "roundToDouble x =
     (if x = 0 then 0
      else if 0 < x then roundPositive x
      else - roundPositive (- x))"

text \<open>The reals that are finite doubles: whole multiples of their own unit in the last place.\<close>

definition isDouble :: "real \<Rightarrow> bool" where
  "isDouble x \<longleftrightarrow>
     \<bar>x\<bar> < 2 ^ 1024 \<and>
     (x = 0 \<or> of_int \<lfloor>\<bar>x\<bar> / 2 powi ulpExp \<bar>x\<bar>\<rfloor> = \<bar>x\<bar> / 2 powi ulpExp \<bar>x\<bar>)"

text \<open>The operator \<^verbatim>\<open>/\<close> on numbers, for a divisor that is not zero.\<close>

definition fdiv :: "real \<Rightarrow> real \<Rightarrow> real" where
  "fdiv x y = roundToDouble (x / y)"

text \<open>
  The remainder operator \<^verbatim>\<open>%\<close> on finite numbers: the quotient is truncated towards
  zero, so the result has the sign of the dividend. Its result is exact in IEEE arithmetic.
\<close>

definition jsTrunc :: "real \<Rightarrow> int" where
  "jsTrunc x = (if 0 \<le> x then \<lfloor>x\<rfloor> else \<lceil>x\<rceil>)"

definition jsRemainder :: "real \<Rightarrow> real \<Rightarrow> real" where
  "jsRemainder x m = x - m * of_int (jsTrunc (x / m))"

section \<open>Numbers: conversion to a string\<close>

text \<open>The character of a decimal digit, and the decimal numeral of a natural number.\<close>

definition digitChar :: "nat \<Rightarrow> char" where
  "digitChar n = ''0123456789'' ! (n mod 10)"

fun decimal :: "nat \<Rightarrow> string" where
  "decimal n = (if n < 10 then [digitChar n] else decimal (n div 10) @ [digitChar (n mod 10)])"

declare decimal.simps [simp del]

fun stripZeros :: "nat \<Rightarrow> nat" where
  "stripZeros n = (if n = 0 \<or> n mod 10 \<noteq> 0 then n else stripZeros (n div 10))"

declare stripZeros.simps [simp del]

text \<open>
  The string a template literal makes of a number (ECMAScript \<^verbatim>\<open>Number::toString\<close>,
  radix 10), for the integral values that \<^verbatim>\<open>Math.floor\<close> returns. Of a double \<open>v\<close>
  JavaScript does not print the exact value but the decimal number \<open>s \<sqdot> 10\<^sup>j\<close> with the
  fewest significant digits \<open>s\<close> that still rounds to \<open>v\<close>; of several such the one
  nearest to \<open>v\<close>, and of two equally near the one with even \<open>s\<close>.

  \<open>shortestAt v j\<close> looks for that number among the multiples of \<open>10\<^sup>j\<close>, then of
  \<open>10\<^sup>j\<^sup>-\<^sup>1\<close>, and so on down to \<open>v\<close> itself: of the multiples of one power of ten only
  the two around \<open>v\<close> can round to \<open>v\<close>. The search starts at the power of ten with as
  many digits as \<open>v\<close>, which is one significant digit.
\<close>

definition roundsTo :: "nat \<Rightarrow> nat \<Rightarrow> bool" where
  "roundsTo w v \<longleftrightarrow> roundToDouble (real w) = real v"

fun shortestAt :: "nat \<Rightarrow> nat \<Rightarrow> nat" where
  "shortestAt v j =
     (if j = 0 then v
      else let p = 10 ^ j; lo = (v div p) * p; hi = lo + p
           in if roundsTo lo v \<and> roundsTo hi v then
                (if v - lo < hi - v then lo
                 else if hi - v < v - lo then hi
                 else if even (v div p) then lo else hi)
              else if roundsTo lo v then lo
              else if roundsTo hi v then hi
              else shortestAt v (j - 1))"

declare shortestAt.simps [simp del]

definition shortest :: "nat \<Rightarrow> nat" where
  "shortest v = shortestAt v (length (decimal v) - 1)"

text \<open>
  The number found is printed as its plain decimal numeral when it has at most 21
  digits, and from \<open>10\<^sup>2\<^sup>1\<close> on in exponent form: the first significant digit, a point and
  the other significant digits if there are any, then \<^verbatim>\<open>e+\<close> and the number of digits
  less one.
\<close>

definition plainOrExponent :: "nat \<Rightarrow> string" where
  "plainOrExponent w =
     (if w < 10 ^ 21 then decimal w
      else (case decimal (stripZeros w) of
              [] \<Rightarrow> []
            | [d] \<Rightarrow> [d]
            | d # ds \<Rightarrow> d # CHR ''.'' # ds)
           @ ''e+'' @ decimal (length (decimal w) - 1))"

definition natToString :: "nat \<Rightarrow> string" where
  "natToString v = plainOrExponent (shortest v)"

definition numberToString :: "int \<Rightarrow> string" where
  "numberToString i = (if i < 0 then CHR ''-'' # natToString (nat (- i)) else natToString (nat i))"

text \<open>\<^verbatim>\<open>String.prototype.padStart\<close> with a filler of one character.\<close>

definition padStart :: "string \<Rightarrow> nat \<Rightarrow> char \<Rightarrow> string" where
  "padStart s n c = replicate (n - length s) c @ s"

section \<open>The presentation formatter\<close>

text \<open>\<^verbatim>\<open>_formatTime\<close> (lines 246-250).\<close>

definition formatTime :: "real \<Rightarrow> string" where
  "formatTime duration =
     (let paddedSeconds = padStart (numberToString \<lfloor>jsRemainder duration 60\<rfloor>) 2 CHR ''0'';
          paddedMinutes = padStart (numberToString \<lfloor>fdiv duration 60\<rfloor>) 2 CHR ''0''
      in paddedMinutes @ '':'' @ paddedSeconds)"

section \<open>Rendering\<close>

text \<open>
  What \<^verbatim>\<open>AudioPlayer\<close> returns (lines 73-177), as far as it depends on the state:
  the \<^verbatim>\<open>disabled\<close> and \<^verbatim>\<open>active\<close> props of the six buttons, the time text and
  the props of the error overlay (\<^const>\<open>None\<close> when no overlay is rendered).
\<close>

text \<open>
  The overlay's one prop, \<^verbatim>\<open>errorMessage\<close>; \<^const>\<open>None\<close> is \<^verbatim>\<open>undefined\<close>,
  of which the \<^verbatim>\<open>Text\<close> renders nothing.
\<close>

record PlayerErrorOverlayProps =
  errorMessage :: "string option"

text \<open>What the condition \<^verbatim>\<open>error ? ... : null\<close> (line 175) takes for true.\<close>

fun truthy :: "JSValue \<Rightarrow> bool" where
  "truthy Undefined = False"
| "truthy Null = False"
| "truthy (BooleanValue b) = b"
| "truthy (NumberValue r) = (r \<noteq> 0)"
| "truthy (StringValue str) = (str \<noteq> [])"
| "truthy (ErrorObject e) = True"
| "truthy OtherObject = True"

text \<open>
  The property read \<^verbatim>\<open>error.message\<close> of a value that passed the condition: the
  message of an \<^verbatim>\<open>Error\<close> object, and \<^verbatim>\<open>undefined\<close> of a string, a number, a
  boolean or an object without the property.
\<close>

fun messageOf :: "JSValue \<Rightarrow> string option" where
  "messageOf (ErrorObject e) = Some (message e)"
| "messageOf v = None"

record AudioPlayButtonProps =
  disabled :: bool
  active :: bool

record AudioSettingsButtonProps = AudioPlayButtonProps +
  title :: string
  iconName :: string

record View =
  playButton :: AudioPlayButtonProps
  timeText :: string
  repeatButton :: AudioSettingsButtonProps
  slowerButton :: AudioSettingsButtonProps
  fasterButton :: AudioSettingsButtonProps
  pitchButton :: AudioSettingsButtonProps
  muteButton :: AudioSettingsButtonProps
  errorOverlay :: "PlayerErrorOverlayProps option"

definition isPlayable :: "Props \<Rightarrow> World \<Rightarrow> bool" where
  "isPlayable props w = (isAudioEnabled props \<and> isLoaded (playback w))"

text \<open>\<^verbatim>\<open>playback.isLoaded && playback.f\<close> for a boolean test \<^verbatim>\<open>f\<close> of the loaded state.\<close>

definition loadedAnd :: "(LoadedPlayback \<Rightarrow> bool) \<Rightarrow> PlaybackState \<Rightarrow> bool" where
  "loadedAnd f pb = (case pb of Unloaded \<Rightarrow> False | Loaded p \<Rightarrow> f p)"

definition AudioPlayer :: "Props \<Rightarrow> World \<Rightarrow> View" where
  "AudioPlayer props w =
     \<lparr>playButton = \<lparr>disabled = \<not> isPlayable props w,
                    active = loadedAnd isPlaying (playback w)\<rparr>,
      timeText =
        (case playback w of
           Loaded p \<Rightarrow> formatTime (fdiv (positionMillis p) 1000) @ '' / ''
                       @ formatTime (fdiv (durationMillis p) 1000)
         | Unloaded \<Rightarrow> ''00:00 / 00:00''),
      repeatButton = \<lparr>disabled = \<not> isPlayable props w,
                      active = loadedAnd isLooping (playback w),
                      title = ''Repeat'', iconName = ''repeat''\<rparr>,
      slowerButton = \<lparr>disabled = \<not> isPlayable props w,
                      active = loadedAnd (\<lambda>p. rate p < 1) (playback w),
                      title = ''Slower'', iconName = ''hourglass''\<rparr>,
      fasterButton = \<lparr>disabled = \<not> isPlayable props w,
                      active = loadedAnd (\<lambda>p. rate p > 1) (playback w),
                      title = ''Faster'', iconName = ''speedometer''\<rparr>,
      pitchButton = \<lparr>disabled = \<not> isPlayable props w,
                     active = loadedAnd shouldCorrectPitch (playback w),
                     title = ''Correct Pitch'', iconName = ''stats''\<rparr>,
      muteButton = \<lparr>disabled = \<not> isPlayable props w,
                    active = loadedAnd isMuted (playback w),
                    title = ''Mute'', iconName = ''volume-off''\<rparr>,
      errorOverlay =
        (if truthy (error w) then Some \<lparr>errorMessage = messageOf (error w)\<rparr> else None)\<rparr>"

text \<open>
  Both button components hand \<^verbatim>\<open>enabled={!props.disabled}\<close> to the
  \<^verbatim>\<open>BorderlessButton\<close> (lines 192 and 237).
\<close>

definition enabled :: "'a AudioPlayButtonProps_scheme \<Rightarrow> bool" where
  "enabled b = (\<not> disabled b)"

section \<open>The life of the component\<close>

text \<open>\<^verbatim>\<open>sound.setOnPlaybackStatusUpdate\<close>: the call, and which sounds have a callback.\<close>

definition setOnPlaybackStatusUpdate :: "Sound \<Rightarrow> bool \<Rightarrow> World \<Rightarrow> World" where
  "setOnPlaybackStatusUpdate sd cb w =
     callSound sd (SetOnPlaybackStatusUpdate cb)
       (w\<lparr>listening := (if cb then sd # removeAll sd (listening w)
                         else removeAll sd (listening w))\<rparr>)"

text \<open>
  The body of the effect (lines 59-64): a new sound object, its status callback, the
  load request. It returns the sound, which the cleanup closure captures.
\<close>

definition effect :: "Props \<Rightarrow> World \<Rightarrow> Sound \<times> World" where
  "effect props w =
     (let sd = created w;
          w1 = w\<lparr>created := Suc sd\<rparr>;
          w2 = setOnPlaybackStatusUpdate sd True w1;
          w3 = callSound sd (LoadAsync (source props) 150) w2
      in (sd, w3))"

text \<open>The cleanup the effect returns (lines 66-70).\<close>

definition cleanup :: "Sound \<Rightarrow> World \<Rightarrow> World" where
  "cleanup sd w =
     (let w1 = w\<lparr>playback := Unloaded\<rparr>;
          w2 = setOnPlaybackStatusUpdate sd False w1
      in callSound sd UnloadAsync w2)"

text \<open>
  What can happen to the component. React mounts it, renders it again with new props,
  and unmounts it; the media runtime delivers a status of a sound or rejects its load;
  the user presses a control.
\<close>

datatype Event =
    Mount Props
  | Render Props
  | Unmount
  | Status Sound PlaybackStatus
  | LoadRejected Sound JSValue
  | Press Control

text \<open>
  One event, by the contract of \<^verbatim>\<open>useEffect\<close> with the dependency list
  \<^verbatim>\<open>[props.source.uri]\<close> (line 71): the effect runs after the mount; after a render
  whose \<^verbatim>\<open>uri\<close> differs from the previous one, the pending cleanup runs and then
  the effect; at the unmount the pending cleanup runs. A status reaches
  \<^verbatim>\<open>handlePlaybackStatusUpdate\<close> while the callback of its sound is installed; a
  rejected load reaches \<^verbatim>\<open>setError\<close> (line 64); a press reaches the handler of an
  enabled button. Everything else changes nothing.
\<close>

fun stepIn :: "Phase \<Rightarrow> Event \<Rightarrow> World \<Rightarrow> World" where
  "stepIn Fresh (Mount props) w =
     (case effect props w of (sd, w') \<Rightarrow> w'\<lparr>phase := Mounted props sd\<rparr>)"
| "stepIn (Mounted old sd) (Render props) w =
     (if uri (source props) = uri (source old) then w\<lparr>phase := Mounted props sd\<rparr>
      else (case effect props (cleanup sd w) of (sd', w') \<Rightarrow> w'\<lparr>phase := Mounted props sd'\<rparr>))"
| "stepIn (Mounted props sd) Unmount w = (cleanup sd w)\<lparr>phase := Gone\<rparr>"
| "stepIn (Mounted props sd) (Status s status) w =
     (if s \<in> set (listening w) then handlePlaybackStatusUpdate s status w else w)"
| "stepIn (Mounted props sd) (LoadRejected s e) w =
     (if s < created w then w\<lparr>error := e\<rparr> else w)"
| "stepIn (Mounted props sd) (Press c) w =
     (if isPlayable props w then onPress c w else w)"
| "stepIn _ _ w = w"

definition step :: "Event \<Rightarrow> World \<Rightarrow> World" where
  "step ev w = stepIn (phase w) ev w"

fun run :: "Event list \<Rightarrow> World \<Rightarrow> World" where
  "run [] w = w"
| "run (ev # evs) w = run evs (step ev w)"

text \<open>How often \<^verbatim>\<open>unloadAsync\<close> was called on a sound.\<close>

definition unloads :: "Sound \<Rightarrow> World \<Rightarrow> nat" where
  "unloads sd w = count_list (calls w) (sd, UnloadAsync)"

text \<open>The sound whose cleanup is pending, while the component is mounted.\<close>

definition current :: "World \<Rightarrow> Sound option" where
  "current w = (case phase w of Fresh \<Rightarrow> None | Mounted props sd \<Rightarrow> Some sd | Gone \<Rightarrow> None)"

text \<open>
  What holds of every state the component reaches: every call in the trace is on a
  constructed sound, the pending sound is constructed, a loaded playback state holds the
  pending sound, the pending sound alone has its callback installed, and every
  constructed sound was unloaded once, the pending one not yet.
\<close>

definition consistent :: "World \<Rightarrow> bool" where
  "consistent w \<longleftrightarrow>
     (\<forall>sd c. (sd, c) \<in> set (calls w) \<longrightarrow> sd < created w)
   \<and> (\<forall>sd. current w = Some sd \<longrightarrow> sd < created w)
   \<and> (\<forall>p. playback w = Loaded p \<longrightarrow> current w = Some (sound p))
   \<and> listening w = (case current w of Some sd \<Rightarrow> [sd] | None \<Rightarrow> [])
   \<and> (\<forall>sd < created w. unloads sd w = (if current w = Some sd then 0 else 1))"

section \<open>The pattern of the formatted time\<close>

text \<open>
  The regular expression \<^verbatim>\<open>^[0-9]{2,}:[0-5][0-9]$\<close> of the specification, read from
  the end of the string: a digit, a digit up to 5, a colon, and before them two or
  more characters, all digits.
\<close>

definition isDigit :: "char \<Rightarrow> bool" where
  "isDigit c = (c \<in> set ''0123456789'')"

definition matchesMMSS :: "string \<Rightarrow> bool" where
  "matchesMMSS s =
     (case rev s of
        b # a # c # ms \<Rightarrow>
          isDigit b \<and> a \<in> set ''012345'' \<and> c = CHR '':'' \<and> 2 \<le> length ms \<and> list_all isDigit ms
      | _ \<Rightarrow> False)"

section \<open>Observing the trace\<close>

text \<open>The rate of the call made last, when that call is \<^verbatim>\<open>setRateAsync\<close>.\<close>

definition dispatchedRate :: "World \<Rightarrow> real option" where
  "dispatchedRate w =
     (case rev (calls w) of
        (sd, SetRateAsync r cp q) # earlier \<Rightarrow> Some r
      | _ \<Rightarrow> None)"

section \<open>Example states\<close>

text \<open>
  A loaded state of sound 0, paused at 500 of 1000 milliseconds at rate 1, and the
  status that reports the same fields.
\<close>

definition exampleStatus :: StatusFields where
  "exampleStatus = \<lparr>positionMillis = 500, durationMillis = 1000, isPlaying = False,
     isLooping = False, isMuted = False, rate = 1, shouldCorrectPitch = False\<rparr>"

definition exampleLoaded :: LoadedPlayback where
  "exampleLoaded = \<lparr>positionMillis = 500, durationMillis = 1000, isPlaying = False,
     isLooping = False, isMuted = False, rate = 1, shouldCorrectPitch = False, sound = 0\<rparr>"

definition exampleProps :: Props where
  "exampleProps = \<lparr>isAudioEnabled = True, source = \<lparr>uri = ''a.mp3''\<rparr>\<rparr>"

definition exampleWorld :: World where
  "exampleWorld = \<lparr>error = Null, playback = Loaded exampleLoaded,
     calls = [(0, SetOnPlaybackStatusUpdate True), (0, LoadAsync \<lparr>uri = ''a.mp3''\<rparr> 150)],
     created = 1, listening = [0], phase = Mounted exampleProps 0\<rparr>"

definition exampleError :: Error where
  "exampleError = \<lparr>message = ''boom''\<rparr>"

section \<open>The status projector: what an update leaves\<close>




text \<open>
  Claim C5. After a status update that is loaded, whatever the state was before, the
  playback state is \<open>Loaded\<close> and holds the sound of the update together with the
  status's own \<^verbatim>\<open>positionMillis\<close>, \<^verbatim>\<open>durationMillis\<close>, \<^verbatim>\<open>isPlaying\<close>,
  \<^verbatim>\<open>isLooping\<close>, \<^verbatim>\<open>isMuted\<close>, \<^verbatim>\<open>rate\<close> and \<^verbatim>\<open>shouldCorrectPitch\<close>; nothing
  of the previous playback state remains in it, and the error state is cleared.
\<close>

theorem success_update_loads:
  "playback (handlePlaybackStatusUpdate sd (StatusLoaded status) w) =
     Loaded \<lparr>positionMillis = positionMillis status, durationMillis = durationMillis status,
       isPlaying = isPlaying status, isLooping = isLooping status, isMuted = isMuted status,
       rate = rate status, shouldCorrectPitch = shouldCorrectPitch status, sound = sd\<rparr>
   \<and> isLoaded (playback (handlePlaybackStatusUpdate sd (StatusLoaded status) w))
   \<and> error (handlePlaybackStatusUpdate sd (StatusLoaded status) w) = Null
   \<and> playback (handlePlaybackStatusUpdate sd (StatusLoaded status) w)
       = playback (handlePlaybackStatusUpdate sd (StatusLoaded status) w')"
  by simp

theorem success_update_loads_witness:
  "playback (handlePlaybackStatusUpdate 0 (StatusLoaded exampleStatus)
       (initialWorld\<lparr>error := ErrorObject exampleError\<rparr>)) = Loaded exampleLoaded
   \<and> error (handlePlaybackStatusUpdate 0 (StatusLoaded exampleStatus)
       (initialWorld\<lparr>error := ErrorObject exampleError\<rparr>)) = Null"
  using success_update_loads [of 0 exampleStatus "initialWorld\<lparr>error := ErrorObject exampleError\<rparr>"]
  by (simp add: exampleStatus_def exampleLoaded_def)

section \<open>Rendering: which controls are disabled\<close>

text \<open>
  Claim C6. Each of the six controls, the play button and the five settings buttons, is
  rendered disabled exactly when it is not the case that both \<^verbatim>\<open>isAudioEnabled\<close>
  holds and the playback state is loaded, and the button component below hands the
  negation to \<^verbatim>\<open>enabled\<close>; so in an unloaded state all six are disabled, whatever
  \<^verbatim>\<open>isAudioEnabled\<close> is.
\<close>

theorem controls_disabled_unless_playable:
  "disabled (playButton (AudioPlayer props w)) = (\<not> (isAudioEnabled props \<and> isLoaded (playback w)))
   \<and> disabled (repeatButton (AudioPlayer props w)) = (\<not> (isAudioEnabled props \<and> isLoaded (playback w)))
   \<and> disabled (slowerButton (AudioPlayer props w)) = (\<not> (isAudioEnabled props \<and> isLoaded (playback w)))
   \<and> disabled (fasterButton (AudioPlayer props w)) = (\<not> (isAudioEnabled props \<and> isLoaded (playback w)))
   \<and> disabled (pitchButton (AudioPlayer props w)) = (\<not> (isAudioEnabled props \<and> isLoaded (playback w)))
   \<and> disabled (muteButton (AudioPlayer props w)) = (\<not> (isAudioEnabled props \<and> isLoaded (playback w)))
   \<and> (playback w = Unloaded \<longrightarrow>
        \<not> enabled (playButton (AudioPlayer props w))
      \<and> \<not> enabled (repeatButton (AudioPlayer props w))
      \<and> \<not> enabled (slowerButton (AudioPlayer props w))
      \<and> \<not> enabled (fasterButton (AudioPlayer props w))
      \<and> \<not> enabled (pitchButton (AudioPlayer props w))
      \<and> \<not> enabled (muteButton (AudioPlayer props w)))"
  by (simp add: AudioPlayer_def isPlayable_def enabled_def)

theorem controls_disabled_unless_playable_witness:
  "isAudioEnabled exampleProps \<and> playback initialWorld = Unloaded
   \<and> disabled (playButton (AudioPlayer exampleProps initialWorld))
   \<and> disabled (repeatButton (AudioPlayer exampleProps initialWorld))
   \<and> disabled (slowerButton (AudioPlayer exampleProps initialWorld))
   \<and> disabled (fasterButton (AudioPlayer exampleProps initialWorld))
   \<and> disabled (pitchButton (AudioPlayer exampleProps initialWorld))
   \<and> disabled (muteButton (AudioPlayer exampleProps initialWorld))
   \<and> \<not> disabled (playButton (AudioPlayer exampleProps exampleWorld))
   \<and> \<not> disabled (muteButton (AudioPlayer exampleProps exampleWorld))"
  using controls_disabled_unless_playable [of exampleProps initialWorld]
    controls_disabled_unless_playable [of exampleProps exampleWorld]
  by (simp add: exampleProps_def initialWorld_def initialPlaybackState_def exampleWorld_def)

section \<open>Slower, then Faster\<close>

text \<open>
  Claim C1, as the specification states it, fails: from the loaded example state at
  rate 1, Slower dispatches rate 0.5; after the status update that reports rate 0.5,
  Faster dispatches rate 2, not 1.
\<close>

theorem slower_then_faster_counterexample:
  "rate exampleLoaded = 1
   \<and> playback exampleWorld = Loaded exampleLoaded
   \<and> dispatchedRate (slowerOnPress exampleWorld) = Some 0.5
   \<and> dispatchedRate
        (fasterOnPress
          (handlePlaybackStatusUpdate 0 (StatusLoaded (exampleStatus\<lparr>rate := 0.5\<rparr>))
            (slowerOnPress exampleWorld))) = Some 2
   \<and> dispatchedRate
        (fasterOnPress
          (handlePlaybackStatusUpdate 0 (StatusLoaded (exampleStatus\<lparr>rate := 0.5\<rparr>))
            (slowerOnPress exampleWorld))) \<noteq> Some 1"
  by (simp add: dispatchedRate_def slowerOnPress_def fasterOnPress_def callSound_def
      exampleWorld_def exampleLoaded_def exampleStatus_def)

text \<open>
  Claim C1, amended. From every loaded state with rate 1, a press on Slower dispatches
  rate 0.5, and after any status update of any sound that reports the rate 0.5, a
  press on Faster dispatches rate 2.
\<close>

theorem slower_then_faster_dispatches_two:
  "playback w = Loaded p \<Longrightarrow> rate p = 1 \<Longrightarrow>
     dispatchedRate (slowerOnPress w) = Some 0.5
   \<and> (rate status = 0.5 \<longrightarrow>
        dispatchedRate
          (fasterOnPress (handlePlaybackStatusUpdate sd (StatusLoaded status) (slowerOnPress w)))
        = Some 2)"
  by (simp add: dispatchedRate_def slowerOnPress_def fasterOnPress_def callSound_def)

theorem slower_then_faster_dispatches_two_witness:
  "playback exampleWorld = Loaded exampleLoaded \<and> rate exampleLoaded = 1
   \<and> rate (exampleStatus\<lparr>rate := 0.5\<rparr>) = 0.5
   \<and> dispatchedRate (slowerOnPress exampleWorld) = Some 0.5
   \<and> dispatchedRate
        (fasterOnPress
          (handlePlaybackStatusUpdate 0 (StatusLoaded (exampleStatus\<lparr>rate := 0.5\<rparr>))
            (slowerOnPress exampleWorld))) = Some 2"
proof -
  have loaded: "playback exampleWorld = Loaded exampleLoaded"
    by (simp add: exampleWorld_def)
  have one: "rate exampleLoaded = 1"
    by (simp add: exampleLoaded_def)
  show ?thesis
    using loaded one
      slower_then_faster_dispatches_two [OF loaded one, of "exampleStatus\<lparr>rate := 0.5\<rparr>" 0]
    by simp
qed

section \<open>The control dispatcher: what each press dispatches\<close>

text \<open>
  Claim C2. In every loaded state, a press on Slower makes exactly one call,
  \<^verbatim>\<open>setRateAsync\<close> on the state's sound, with rate 1 when the current rate is below 1
  and rate 0.5 otherwise; a press on Faster makes exactly one call, \<^verbatim>\<open>setRateAsync\<close>
  with rate 1 when the current rate is above 1 and rate 2 otherwise. Nothing else of
  the state changes.
\<close>

theorem slower_faster_dispatch:
  "playback w = Loaded p \<Longrightarrow>
     slowerOnPress w =
       w\<lparr>calls := calls w @
          [(sound p, SetRateAsync (if rate p < 1 then 1 else 0.5) (shouldCorrectPitch p) High)]\<rparr>
   \<and> fasterOnPress w =
       w\<lparr>calls := calls w @
          [(sound p, SetRateAsync (if rate p > 1 then 1 else 2) (shouldCorrectPitch p) High)]\<rparr>"
  by (simp add: slowerOnPress_def fasterOnPress_def callSound_def)

theorem slower_faster_dispatch_witness:
  "playback exampleWorld = Loaded exampleLoaded
   \<and> calls (slowerOnPress exampleWorld) = calls exampleWorld @ [(0, SetRateAsync 0.5 False High)]
   \<and> calls (fasterOnPress exampleWorld) = calls exampleWorld @ [(0, SetRateAsync 2 False High)]
   \<and> calls (slowerOnPress (exampleWorld\<lparr>playback := Loaded (exampleLoaded\<lparr>rate := 0.5\<rparr>)\<rparr>))
       = calls exampleWorld @ [(0, SetRateAsync 1 False High)]
   \<and> calls (fasterOnPress (exampleWorld\<lparr>playback := Loaded (exampleLoaded\<lparr>rate := 2\<rparr>)\<rparr>))
       = calls exampleWorld @ [(0, SetRateAsync 1 False High)]"
proof -
  have loaded: "playback exampleWorld = Loaded exampleLoaded"
    by (simp add: exampleWorld_def)
  show ?thesis
    using loaded slower_faster_dispatch [OF loaded]
      slower_faster_dispatch [of "exampleWorld\<lparr>playback := Loaded (exampleLoaded\<lparr>rate := 0.5\<rparr>)\<rparr>"
        "exampleLoaded\<lparr>rate := 0.5\<rparr>"]
      slower_faster_dispatch [of "exampleWorld\<lparr>playback := Loaded (exampleLoaded\<lparr>rate := 2\<rparr>)\<rparr>"
        "exampleLoaded\<lparr>rate := 2\<rparr>"]
    by (simp add: exampleLoaded_def)
qed

text \<open>
  Claim C3. In every loaded state, a press on the play button makes exactly one call on
  the state's sound: \<^verbatim>\<open>pauseAsync\<close> when \<^verbatim>\<open>isPlaying\<close> holds; otherwise
  \<^verbatim>\<open>playFromPositionAsync(0)\<close> when the position is below the duration, a restart
  from the beginning whatever the position is; otherwise, the position being at or past
  the duration, plain \<^verbatim>\<open>playAsync\<close>.
\<close>

theorem play_button_dispatch:
  "playback w = Loaded p \<Longrightarrow>
     (isPlaying p \<longrightarrow>
        playOnPress w = w\<lparr>calls := calls w @ [(sound p, PauseAsync)]\<rparr>)
   \<and> (\<not> isPlaying p \<and> positionMillis p < durationMillis p \<longrightarrow>
        playOnPress w = w\<lparr>calls := calls w @ [(sound p, PlayFromPositionAsync 0)]\<rparr>)
   \<and> (\<not> isPlaying p \<and> durationMillis p \<le> positionMillis p \<longrightarrow>
        playOnPress w = w\<lparr>calls := calls w @ [(sound p, PlayAsync)]\<rparr>)"
  by (simp add: playOnPress_def callSound_def)

theorem play_button_dispatch_witness:
  "calls (playOnPress exampleWorld) = calls exampleWorld @ [(0, PlayFromPositionAsync 0)]
   \<and> calls (playOnPress (exampleWorld\<lparr>playback := Loaded (exampleLoaded\<lparr>isPlaying := True\<rparr>)\<rparr>))
       = calls exampleWorld @ [(0, PauseAsync)]
   \<and> calls (playOnPress (exampleWorld\<lparr>playback := Loaded (exampleLoaded\<lparr>positionMillis := 1000\<rparr>)\<rparr>))
       = calls exampleWorld @ [(0, PlayAsync)]"
  using play_button_dispatch [of exampleWorld exampleLoaded]
    play_button_dispatch [of "exampleWorld\<lparr>playback := Loaded (exampleLoaded\<lparr>isPlaying := True\<rparr>)\<rparr>"
      "exampleLoaded\<lparr>isPlaying := True\<rparr>"]
    play_button_dispatch [of "exampleWorld\<lparr>playback := Loaded (exampleLoaded\<lparr>positionMillis := 1000\<rparr>)\<rparr>"
      "exampleLoaded\<lparr>positionMillis := 1000\<rparr>"]
  by (simp add: exampleWorld_def exampleLoaded_def)

text \<open>
  Claim C8. In every loaded state, a press on Correct Pitch makes exactly one call,
  \<^verbatim>\<open>setRateAsync\<close> with the current rate and \<^verbatim>\<open>shouldCorrectPitch\<close> negated, and
  Slower and Faster each make one \<^verbatim>\<open>setRateAsync\<close> call with the pitch flag as it
  is; all three carry the quality \<^verbatim>\<open>High\<close>. And whatever the state and the control,
  every \<^verbatim>\<open>setRateAsync\<close> among the calls that a press adds to the trace carries the
  quality \<^verbatim>\<open>High\<close>, whatever its pitch flag.
\<close>

theorem pitch_toggle_dispatch:
  "(playback w = Loaded p \<longrightarrow>
      pitchOnPress w =
        w\<lparr>calls := calls w @
           [(sound p, SetRateAsync (rate p) (\<not> shouldCorrectPitch p) High)]\<rparr>
    \<and> (\<exists>r. slowerOnPress w =
          w\<lparr>calls := calls w @ [(sound p, SetRateAsync r (shouldCorrectPitch p) High)]\<rparr>)
    \<and> (\<exists>r. fasterOnPress w =
          w\<lparr>calls := calls w @ [(sound p, SetRateAsync r (shouldCorrectPitch p) High)]\<rparr>))
   \<and> (\<forall>c sd r cp q.
          (sd, SetRateAsync r cp q) \<in> set (drop (length (calls w)) (calls (onPress c w)))
          \<longrightarrow> q = High)"
proof (intro conjI impI allI)
  fix c sd r cp q
  assume "(sd, SetRateAsync r cp q) \<in> set (drop (length (calls w)) (calls (onPress c w)))"
  then show "q = High"
    by (cases c; cases "playback w")
      (simp_all add: playOnPress_def repeatOnPress_def slowerOnPress_def fasterOnPress_def
        pitchOnPress_def muteOnPress_def callSound_def split: if_splits)
qed (auto simp add: pitchOnPress_def slowerOnPress_def fasterOnPress_def callSound_def)

theorem pitch_toggle_dispatch_witness:
  "playback exampleWorld = Loaded exampleLoaded
   \<and> calls (pitchOnPress exampleWorld) = calls exampleWorld @ [(0, SetRateAsync 1 True High)]
   \<and> calls (pitchOnPress (exampleWorld\<lparr>playback := Loaded (exampleLoaded\<lparr>shouldCorrectPitch := True\<rparr>)\<rparr>))
       = calls exampleWorld @ [(0, SetRateAsync 1 False High)]
   \<and> (0, SetRateAsync 0.5 False High)
       \<in> set (drop (length (calls exampleWorld)) (calls (onPress Slower exampleWorld)))"
  using pitch_toggle_dispatch [of exampleWorld exampleLoaded]
    pitch_toggle_dispatch [of "exampleWorld\<lparr>playback := Loaded (exampleLoaded\<lparr>shouldCorrectPitch := True\<rparr>)\<rparr>"
      "exampleLoaded\<lparr>shouldCorrectPitch := True\<rparr>"]
  by (simp add: exampleWorld_def exampleLoaded_def slowerOnPress_def callSound_def)

text \<open>
  Claim C10. In a state that is not loaded, the press handler of each of the six controls,
  called directly and so whatever the \<^verbatim>\<open>disabled\<close> prop says, returns the state as
  it was: no call is added to the trace, and the playback state and the error stay.
\<close>

theorem unloaded_press_is_noop:
  "playback w = Unloaded \<Longrightarrow>
     playOnPress w = w \<and> repeatOnPress w = w \<and> slowerOnPress w = w
   \<and> fasterOnPress w = w \<and> pitchOnPress w = w \<and> muteOnPress w = w"
  by (simp add: playOnPress_def repeatOnPress_def slowerOnPress_def fasterOnPress_def
      pitchOnPress_def muteOnPress_def)

theorem unloaded_press_is_noop_witness:
  "playback initialWorld = Unloaded
   \<and> calls (playOnPress initialWorld) = [] \<and> calls (repeatOnPress initialWorld) = []
   \<and> calls (slowerOnPress initialWorld) = [] \<and> calls (fasterOnPress initialWorld) = []
   \<and> calls (pitchOnPress initialWorld) = [] \<and> calls (muteOnPress initialWorld) = []
   \<and> playback (playOnPress initialWorld) = Unloaded \<and> error (playOnPress initialWorld) = Null"
proof -
  have unloaded: "playback initialWorld = Unloaded"
    by (simp add: initialWorld_def initialPlaybackState_def)
  show ?thesis
    using unloaded unloaded_press_is_noop [OF unloaded]
    by (simp add: initialWorld_def initialErrorState_def)
qed

section \<open>The presentation formatter\<close>

subsection \<open>The binary exponent\<close>

lemma bitLength_0: "bitLength 0 = 0"
  by (subst bitLength.simps) simp

lemma bitLength_pos: "0 < n \<Longrightarrow> bitLength n = Suc (bitLength (n div 2))"
  by (subst bitLength.simps) simp

lemma bitLength_bounds:
  "0 < n \<Longrightarrow> 2 ^ (bitLength n - 1) \<le> n \<and> n < 2 ^ bitLength n"
proof (induction n rule: bitLength.induct)
  case (1 n)
  show ?case
  proof (cases "n div 2 = 0")
    case True
    with "1.prems" have "n = 1"
      by (simp add: div_eq_0_iff) 
    then show ?thesis
      by (simp add: bitLength_pos bitLength_0)
  next
    case False
    then have pos: "0 < n div 2"
      by simp
    with "1.IH" "1.prems" have ih: "2 ^ (bitLength (n div 2) - 1) \<le> n div 2"
        "n div 2 < 2 ^ bitLength (n div 2)"
      by simp_all
    from pos have bl: "0 < bitLength (n div 2)"
      by (simp add: bitLength_pos)
    have "2 ^ (bitLength n - 1) = 2 ^ bitLength (n div 2)"
      using "1.prems" by (simp add: bitLength_pos)
    also have "\<dots> = 2 * 2 ^ (bitLength (n div 2) - 1)"
      using bl by (cases "bitLength (n div 2)") simp_all
    also have "\<dots> \<le> 2 * (n div 2)"
      using ih(1) by simp
    also have "\<dots> \<le> n"
      by simp
    finally have lower: "2 ^ (bitLength n - 1) \<le> n" .
    have "n < 2 * (n div 2) + 2"
      by linarith
    also have "\<dots> \<le> 2 * 2 ^ bitLength (n div 2)"
      using ih(2) by simp
    also have "\<dots> = 2 ^ bitLength n"
      using "1.prems" by (simp add: bitLength_pos)
    finally show ?thesis
      using lower by simp
  qed
qed


lemma bitLength_positive: "0 < n \<Longrightarrow> 0 < bitLength n"
  by (simp add: bitLength_pos)

lemma binExp_bounds:
  assumes "0 < x"
  shows "2 powi binExp x \<le> x \<and> x < 2 powi (binExp x + 1)"
proof (cases "1 \<le> x")
  case True
  define N where "N = nat \<lfloor>x\<rfloor>"
  from True have fl: "1 \<le> \<lfloor>x\<rfloor>"
    by simp
  have "of_int \<lfloor>x\<rfloor> \<le> x" "x < of_int \<lfloor>x\<rfloor> + 1"
    by linarith+
  with fl have N: "0 < N" "real N \<le> x" "x < real N + 1"
    by (simp_all add: N_def)
  obtain b where b: "bitLength N = Suc b"
    using bitLength_positive [OF N(1)] by (cases "bitLength N") simp_all
  from bitLength_bounds [OF N(1)] b have nb: "2 ^ b \<le> N" "N + 1 \<le> 2 ^ Suc b"
    by simp_all
  have e: "binExp x = int b"
    using True b by (simp add: binExp_def N_def)
  from nb(1) have "(2::real) ^ b \<le> real N"
    by (metis of_nat_le_iff of_nat_numeral of_nat_power)
  moreover from nb(2) have "real N + 1 \<le> 2 ^ Suc b"
    by (metis of_nat_le_iff of_nat_numeral of_nat_power of_nat_Suc Suc_eq_plus1 of_nat_add of_nat_1)
  moreover have "2 powi (int b + 1) = (2::real) ^ Suc b"
    by (metis of_nat_Suc power_int_of_nat add.commute of_nat_1 of_nat_add Suc_eq_plus1)
  moreover have "2 powi int b = (2::real) ^ b"
    by (rule power_int_of_nat)
  ultimately show ?thesis
    unfolding e using N(2,3) by (intro conjI; linarith)
next
  case False
  define y where "y = 1 / x"
  define C where "C = \<lceil>y\<rceil>"
  define N where "N = nat (C - 1)"
  from False assms have y: "1 < y"
    by (simp add: y_def)
  have "of_int \<lceil>y\<rceil> - 1 < y" "y \<le> of_int \<lceil>y\<rceil>"
    by linarith+
  then have C: "of_int C - 1 < y" "y \<le> of_int C"
    by (simp_all add: C_def)
  with y have C2: "2 \<le> C"
    by linarith
  with C have N: "0 < N" "real N < y" "y \<le> real N + 1"
    by (simp_all add: N_def)
  obtain k where k: "bitLength N = Suc k"
    using bitLength_positive [OF N(1)] by (cases "bitLength N") simp_all
  from bitLength_bounds [OF N(1)] k have nb: "2 ^ k \<le> N" "N + 1 \<le> 2 ^ Suc k"
    by simp_all
  have e: "binExp x = - int (Suc k)"
    using False k by (simp add: binExp_def N_def C_def y_def)
  from nb(1) have "(2::real) ^ k \<le> real N"
    by (metis of_nat_le_iff of_nat_numeral of_nat_power)
  with N(2) have lo: "2 ^ k < y"
    by linarith
  from nb(2) have "real N + 1 \<le> 2 ^ Suc k"
    by (metis of_nat_le_iff of_nat_numeral of_nat_power of_nat_Suc Suc_eq_plus1 of_nat_add of_nat_1)
  with N(3) have hi: "y \<le> 2 ^ Suc k"
    by linarith
  have x: "x = 1 / y"
    using assms by (simp add: y_def)
  have "1 / 2 ^ Suc k \<le> x"
    unfolding x using hi y by (simp add: field_simps)
  moreover have "x < 1 / 2 ^ k"
    unfolding x using lo y by (simp add: field_simps)
  moreover have "2 powi (- int (Suc k)) = 1 / (2::real) ^ Suc k"
    by (simp add: power_int_minus_divide del: of_nat_Suc power_Suc)
  moreover have "2 powi (- int (Suc k) + 1) = 1 / (2::real) ^ k"
    by (simp add: power_int_minus_divide)
  ultimately show ?thesis
    unfolding e by (intro conjI; linarith)
qed

lemma pow2_less_cancel: "(2::real) powi a < 2 powi b \<Longrightarrow> a < b"
  using power_int_increasing [of b a "2::real"] by (cases "a < b") auto

lemma binExp_unique:
  assumes "0 < x" "2 powi e \<le> x" "x < 2 powi (e + 1)"
  shows "binExp x = e"
proof -
  from binExp_bounds [OF assms(1)] have b: "2 powi binExp x \<le> x" "x < 2 powi (binExp x + 1)"
    by simp_all
  have "(2::real) powi e < 2 powi (binExp x + 1)"
    using assms(2) b(2) by linarith
  then have "e < binExp x + 1"
    by (rule pow2_less_cancel)
  moreover have "(2::real) powi binExp x < 2 powi (e + 1)"
    using assms(3) b(1) by linarith
  then have "binExp x < e + 1"
    by (rule pow2_less_cancel)
  ultimately show ?thesis
    by simp
qed

lemma binExp_mono:
  assumes "0 < x" "x \<le> y"
  shows "binExp x \<le> binExp y"
proof -
  from assms have "0 < y"
    by simp
  from binExp_bounds [OF assms(1)] binExp_bounds [OF this] assms(2)
  have "(2::real) powi binExp x < 2 powi (binExp y + 1)"
    by linarith
  then have "binExp x < binExp y + 1"
    by (rule pow2_less_cancel)
  then show ?thesis
    by simp
qed


subsection \<open>Rounding never crosses a double\<close>

lemma roundHalfEven_of_int: "roundHalfEven (of_int n) = n"
  by (simp add: roundHalfEven_def)

lemma roundHalfEven_le:
  assumes "x \<le> of_int n"
  shows "roundHalfEven x \<le> n"
proof (cases "\<lfloor>x\<rfloor> = n")
  case True
  with assms have "x = of_int n"
    by linarith
  then show ?thesis
    by (simp add: roundHalfEven_of_int)
next
  case False
  from assms have "\<lfloor>x\<rfloor> \<le> n"
    by (simp add: floor_le_iff) 
  with False have "\<lfloor>x\<rfloor> + 1 \<le> n"
    by simp
  then show ?thesis
    by (simp add: roundHalfEven_def Let_def)
qed

lemma roundHalfEven_ge:
  assumes "of_int n \<le> x"
  shows "n \<le> roundHalfEven x"
proof -
  from assms have "n \<le> \<lfloor>x\<rfloor>"
    by (simp add: le_floor_iff)
  then show ?thesis
    by (simp add: roundHalfEven_def Let_def)
qed


lemma ulpExp_mono:
  assumes "0 < x" "x \<le> y"
  shows "ulpExp x \<le> ulpExp y"
  using binExp_mono [OF assms] by (simp add: ulpExp_def)

lemma grid_coarser:
  assumes "(y::real) / 2 powi ey = of_int M" "e \<le> ey"
  shows "y / 2 powi e = of_int (M * 2 ^ nat (ey - e))"
proof -
  have p: "(2::real) powi ey = 2 powi e * 2 powi (ey - e)"
    using power_int_add [of "2::real" e "ey - e"] by simp
  have q: "(2::real) powi (ey - e) = 2 ^ nat (ey - e)"
    using assms(2) by (simp add: power_int_nonneg_exp)
  from assms(1) have "y = of_int M * 2 powi ey"
    by (simp add: field_simps)
  then have "y / 2 powi e = of_int M * 2 powi (ey - e)"
    unfolding p by simp
  then show ?thesis
    unfolding q by simp
qed

lemma isDouble_posD:
  assumes "isDouble y" "0 < y"
  shows "\<exists>M. y / 2 powi ulpExp y = of_int M \<and> 0 < M"
proof -
  let ?q = "y / 2 powi ulpExp y"
  from assms have eq: "of_int \<lfloor>?q\<rfloor> = ?q"
    by (simp add: isDouble_def)
  from assms(2) have "0 < ?q"
    by simp
  with eq have "0 < \<lfloor>?q\<rfloor>"
    by (metis of_int_0_less_iff)
  with eq show ?thesis
    by metis
qed

lemma round_le_double:
  assumes "0 < x" "x \<le> y" "isDouble y"
  shows "roundPositive x \<le> y"
proof -
  from assms have y: "0 < y"
    by simp
  obtain M where M: "y / 2 powi ulpExp y = of_int M"
    using isDouble_posD [OF assms(3) y] by blast
  define N where "N = M * 2 ^ nat (ulpExp y - ulpExp x)"
  have g: "y / 2 powi ulpExp x = of_int N"
    unfolding N_def by (rule grid_coarser [OF M ulpExp_mono [OF assms(1,2)]])
  have "x / 2 powi ulpExp x \<le> y / 2 powi ulpExp x"
    using assms(2) by (simp add: divide_right_mono)
  then have "roundHalfEven (x / 2 powi ulpExp x) \<le> N"
    unfolding g by (rule roundHalfEven_le)
  then have "of_int (roundHalfEven (x / 2 powi ulpExp x)) * 2 powi ulpExp x
      \<le> of_int N * (2::real) powi ulpExp x"
    by (simp add: mult_right_mono)
  also have "\<dots> = y"
    using g by (simp add: field_simps)
  finally show ?thesis
    unfolding roundPositive_def .
qed

lemma double_binExp_lower:
  assumes "isDouble y" "0 < y"
  shows "- 1074 \<le> binExp y"
proof -
  obtain M where M: "y / 2 powi ulpExp y = of_int M" "0 < M"
    using isDouble_posD [OF assms] by blast
  from M(2) have "(1::real) \<le> of_int M"
    by simp
  with M(1) have "1 \<le> y / 2 powi ulpExp y"
    by simp
  then have "2 powi ulpExp y \<le> y"
    by (simp add: field_simps)
  moreover have "(2::real) powi (- 1074) \<le> 2 powi ulpExp y"
    by (rule power_int_increasing) (simp_all add: ulpExp_def)
  moreover from binExp_bounds [OF assms(2)] have "y < 2 powi (binExp y + 1)"
    by simp
  ultimately have "(2::real) powi (- 1074) < 2 powi (binExp y + 1)"
    by linarith
  then have "- 1074 < binExp y + 1"
    by (rule pow2_less_cancel)
  then show ?thesis
    by simp
qed

lemma double_le_round:
  assumes "0 < y" "y \<le> x" "isDouble y"
  shows "y \<le> roundPositive x"
proof -
  from assms have x: "0 < x"
    by simp
  let ?p = "(2::real) powi ulpExp x"
  have grid: "g \<le> roundPositive x" if "g / ?p = of_int G" "g \<le> x" for g G
  proof -
    from that have "of_int G \<le> x / ?p"
      by (metis divide_right_mono zero_le_power_int zero_le_numeral)
    then have "G \<le> roundHalfEven (x / ?p)"
      by (rule roundHalfEven_ge)
    then have "of_int G * ?p \<le> of_int (roundHalfEven (x / ?p)) * ?p"
      by (simp add: mult_right_mono)
    moreover from that(1) have "g = of_int G * ?p"
      by (simp add: field_simps)
    ultimately show ?thesis
      unfolding roundPositive_def by simp
  qed
  show ?thesis
  proof (cases "binExp y = binExp x")
    case True
    then have "ulpExp y = ulpExp x"
      by (simp add: ulpExp_def)
    with isDouble_posD [OF assms(3,1)] obtain M where "y / ?p = of_int M"
      by auto
    from grid [OF this assms(2)] show ?thesis .
  next
    case False
    with binExp_mono [OF assms(1,2)] have less: "binExp y + 1 \<le> binExp x"
      by simp
    from double_binExp_lower [OF assms(3,1)] less have nonneg: "0 \<le> binExp x - ulpExp x"
      by (simp add: ulpExp_def)
    have "2 powi binExp x / ?p = 2 powi (binExp x - ulpExp x)"
      by (simp add: power_int_diff)
    also have "\<dots> = 2 ^ nat (binExp x - ulpExp x)"
      using nonneg by (simp add: power_int_nonneg_exp)
    also have "\<dots> = of_int (2 ^ nat (binExp x - ulpExp x))"
      by simp
    finally have g: "2 powi binExp x / ?p = of_int (2 ^ nat (binExp x - ulpExp x))" .
    from binExp_bounds [OF x] have "2 powi binExp x \<le> x"
      by simp
    from grid [OF g this] have "2 powi binExp x \<le> roundPositive x" .
    moreover from binExp_bounds [OF assms(1)] have "y < 2 powi (binExp y + 1)"
      by simp
    moreover have "(2::real) powi (binExp y + 1) \<le> 2 powi binExp x"
      using less by (intro power_int_increasing) simp_all
    ultimately show ?thesis
      by linarith
  qed
qed

lemma round_double:
  assumes "isDouble y" "0 < y"
  shows "roundPositive y = y"
  using round_le_double [OF assms(2) order_refl assms(1)]
    double_le_round [OF assms(2) order_refl assms(1)]
  by simp

lemma roundToDouble_pos: "0 < x \<Longrightarrow> roundToDouble x = roundPositive x"
  by (simp add: roundToDouble_def)

lemma roundPositive_nonneg:
  assumes "0 < x"
  shows "0 \<le> roundPositive x"
proof -
  from assms have "of_int 0 \<le> x / 2 powi ulpExp x"
    by simp
  then have "0 \<le> roundHalfEven (x / 2 powi ulpExp x)"
    by (rule roundHalfEven_ge)
  then show ?thesis
    by (simp add: roundPositive_def)
qed

lemma isDouble_nat:
  assumes "n < 2 ^ 53"
  shows "isDouble (real n)"
proof (cases "n = 0")
  case True
  then show ?thesis
    by (simp add: isDouble_def)
next
  case False
  then have pos: "0 < real n"
    by simp
  from assms have "real n < 2 ^ 53"
    by (metis of_nat_less_iff of_nat_numeral of_nat_power)
  then have small: "real n < 2 powi 53" "real n < 2 ^ 1024"
    by simp_all
  from binExp_bounds [OF pos] small(1) have "(2::real) powi binExp (real n) < 2 powi 53"
    by linarith
  then have "binExp (real n) < 53"
    by (rule pow2_less_cancel)
  then have e: "ulpExp (real n) \<le> 0"
    by (simp add: ulpExp_def)
  have "real n / 2 powi ulpExp (real n) = real n * 2 powi (- ulpExp (real n))"
    by (simp add: power_int_minus field_simps)
  also have "\<dots> = real n * 2 ^ nat (- ulpExp (real n))"
    using e by (simp add: power_int_nonneg_exp)
  also have "\<dots> = of_int (int n * 2 ^ nat (- ulpExp (real n)))"
    by simp
  finally have "real n / 2 powi ulpExp (real n) = of_int (int n * 2 ^ nat (- ulpExp (real n)))" .
  then have "of_int \<lfloor>real n / 2 powi ulpExp (real n)\<rfloor> = real n / 2 powi ulpExp (real n)"
    by (simp only: floor_of_int)
  with small(2) show ?thesis
    by (simp add: isDouble_def)
qed


subsection \<open>The shortest digits\<close>

lemmas double_unfold = isDouble_def ulpExp_def binExp_def bitLength_pos bitLength_0

lemma isDouble_2_53: "isDouble (2 ^ 53)"
  by (simp add: double_unfold)

lemma isDouble_1e21: "isDouble (10 ^ 21)"
  by (simp add: double_unfold)

lemma isDouble_below_1e21: "isDouble (10 ^ 21 - 131072)"
  by (simp add: double_unfold)

lemma shortestAt_sound: "shortestAt v j = v \<or> roundsTo (shortestAt v j) v"
proof (induction v j rule: shortestAt.induct)
  case (1 v j)
  show ?case
  proof (cases "j = 0")
    case True
    then show ?thesis
      by (subst shortestAt.simps) simp
  next
    case False
    with 1 show ?thesis
      by (subst (1 2) shortestAt.simps) (auto simp add: Let_def)
  qed
qed

lemma roundsTo_below:
  assumes "roundsTo w v" "isDouble (real b)" "0 < b" "v < b"
  shows "w < b"
proof (rule ccontr)
  assume "\<not> w < b"
  then have le: "real b \<le> real w"
    by simp
  with assms(3) have "0 < real w" "0 < real b"
    by simp_all
  from double_le_round [OF this(2) le assms(2)] this(1) assms(1)
  have "real b \<le> real v"
    by (simp add: roundsTo_def roundToDouble_pos)
  with assms(4) show False
    by simp
qed

lemma shortest_below_1e21:
  assumes "v < 10 ^ 21"
  shows "shortest v < 10 ^ 21"
proof -
  have d: "isDouble (real (10 ^ 21))"
    using isDouble_1e21 by simp
  from shortestAt_sound [of v "length (decimal v) - 1"] show ?thesis
    unfolding shortest_def
  proof
    assume "roundsTo (shortestAt v (length (decimal v) - 1)) v"
    from roundsTo_below [OF this d _ assms] show "shortestAt v (length (decimal v) - 1) < 10 ^ 21"
      by simp
  qed (use assms in simp)
qed

lemma shortest_exact:
  assumes "v < 2 ^ 53"
  shows "shortest v = v"
proof -
  have d: "isDouble (real (2 ^ 53))"
    using isDouble_2_53 by simp
  from shortestAt_sound [of v "length (decimal v) - 1"] show ?thesis
    unfolding shortest_def
  proof
    let ?w = "shortestAt v (length (decimal v) - 1)"
    assume r: "roundsTo ?w v"
    from roundsTo_below [OF this d _ assms] have small: "?w < 2 ^ 53"
      by simp
    show "?w = v"
    proof (cases "?w = 0")
      case True
      with r show ?thesis
        by (simp add: roundsTo_def roundToDouble_def)
    next
      case False
      then have pos: "0 < real ?w"
        by simp
      from round_double [OF isDouble_nat [OF small] pos] r pos show ?thesis
        by (simp add: roundsTo_def roundToDouble_pos)
    qed
  qed
qed


subsection \<open>The whole minutes of a duration\<close>

lemma double_below_6e22:
  assumes "isDouble d" "0 < d" "d < 6 * 10 ^ 22"
  shows "d \<le> 6 * 10 ^ 22 - 2 ^ 23"
proof (cases "d < 2 ^ 75")
  case True
  moreover have "(2::real) ^ 75 \<le> 6 * 10 ^ 22 - 2 ^ 23"
    by simp
  ultimately show ?thesis
    by linarith
next
  case False
  then have lo: "2 powi 75 \<le> d"
    by simp
  have "(6::real) * 10 ^ 22 < 2 ^ 76"
    by simp
  with assms(3) have hi: "d < 2 powi (75 + 1)"
    by simp
  have "binExp d = 75"
    by (rule binExp_unique [OF assms(2) lo hi])
  then have e: "ulpExp d = 23"
    by (simp add: ulpExp_def)
  from isDouble_posD [OF assms(1,2)] obtain M where M: "d / 2 powi 23 = of_int M"
    unfolding e by blast
  then have d: "d = of_int M * 2 ^ 23"
    by simp
  with assms(3) have "real_of_int M * 2 ^ 23 < 7152557373046875 * 2 ^ 23"
    by simp
  then have "real_of_int M < 7152557373046875"
    by simp
  then have "M \<le> 7152557373046874"
    by linarith
  then have "real_of_int M \<le> 7152557373046874"
    by linarith
  then have "real_of_int M * 2 ^ 23 \<le> 7152557373046874 * 2 ^ 23"
    by simp
  then show ?thesis
    unfolding d by simp
qed

lemma minutes_range:
  assumes "isDouble d" "0 \<le> d" "d < 6 * 10 ^ 22"
  shows "\<not> \<lfloor>fdiv d 60\<rfloor> < 0 \<and> nat \<lfloor>fdiv d 60\<rfloor> < 10 ^ 21"
proof (cases "d = 0")
  case True
  then show ?thesis
    by (simp add: fdiv_def roundToDouble_def)
next
  case False
  with assms(2) have pos: "0 < d" "0 < d / 60"
    by simp_all
  from double_below_6e22 [OF assms(1) pos(1) assms(3)] have "d / 60 \<le> 10 ^ 21 - 131072"
    by simp
  from round_le_double [OF pos(2) this isDouble_below_1e21] roundPositive_nonneg [OF pos(2)]
  have q: "0 \<le> fdiv d 60" "fdiv d 60 < 10 ^ 21"
    using pos(2) by (simp_all add: fdiv_def roundToDouble_pos)
  define i where "i = \<lfloor>fdiv d 60\<rfloor>"
  from q have "0 \<le> i" "i < 10 ^ 21"
    by (simp_all add: i_def floor_less_iff)
  then have "\<not> i < 0 \<and> nat i < 10 ^ 21"
    by (simp add: nat_less_iff)
  then show ?thesis
    unfolding i_def .
qed

lemma natToString_exact:
  assumes "v < 2 ^ 53"
  shows "natToString v = plainOrExponent v"
  by (simp add: natToString_def shortest_exact [OF assms])

lemmas round_unfold =
  fdiv_def roundToDouble_def roundPositive_def roundHalfEven_def ulpExp_def binExp_def
  bitLength_pos bitLength_0 Let_def

lemma decimal_small: "n < 10 \<Longrightarrow> decimal n = [digitChar n]"
  by (subst decimal.simps) simp

lemma decimal_big: "10 \<le> n \<Longrightarrow> decimal n = decimal (n div 10) @ [digitChar (n mod 10)]"
  by (subst decimal.simps) simp

lemma stripZeros_step: "0 < n \<Longrightarrow> n mod 10 = 0 \<Longrightarrow> stripZeros n = stripZeros (n div 10)"
  by (subst stripZeros.simps) simp

lemma stripZeros_stop: "n mod 10 \<noteq> 0 \<Longrightarrow> stripZeros n = n"
  by (subst stripZeros.simps) simp

lemma shortestAt_0: "shortestAt v 0 = v"
  by (subst shortestAt.simps) simp

lemma shortestAt_pos:
  "0 < j \<Longrightarrow> shortestAt v j =
     (let p = 10 ^ j; lo = (v div p) * p; hi = lo + p
      in if roundsTo lo v \<and> roundsTo hi v then
           (if v - lo < hi - v then lo
            else if hi - v < v - lo then hi
            else if even (v div p) then lo else hi)
         else if roundsTo lo v then lo
         else if roundsTo hi v then hi
         else shortestAt v (j - 1))"
  by (subst shortestAt.simps) simp

lemmas format_unfold =
  formatTime_def jsRemainder_def jsTrunc_def numberToString_def padStart_def
  plainOrExponent_def decimal_small decimal_big digitChar_def

lemma fdiv_0: "fdiv 0 60 = 0"
  by (simp add: round_unfold)

lemma fdiv_65: "\<lfloor>fdiv 65 60\<rfloor> = 1"
  by (simp add: round_unfold)

lemma fdiv_3600: "fdiv 3600 60 = 60"
  by (simp add: round_unfold)

lemma fdiv_6e22: "fdiv (6 * 10 ^ 22) 60 = 10 ^ 21"
  by (simp add: round_unfold)

lemma formatTime_0: "formatTime 0 = ''00:00''"
  by (simp add: formatTime_def fdiv_0 natToString_exact jsRemainder_def jsTrunc_def
      numberToString_def padStart_def plainOrExponent_def decimal_small digitChar_def)

lemma formatTime_65: "formatTime 65 = ''01:05''"
  by (simp add: formatTime_def fdiv_65 natToString_exact jsRemainder_def jsTrunc_def
      numberToString_def padStart_def plainOrExponent_def decimal_small digitChar_def)

lemma formatTime_3600: "formatTime 3600 = ''60:00''"
  by (simp add: formatTime_def fdiv_3600 natToString_exact jsRemainder_def jsTrunc_def
      numberToString_def padStart_def plainOrExponent_def decimal_small decimal_big digitChar_def)


lemmas shortest_unfold =
  shortest_def shortestAt_pos shortestAt_0 roundsTo_def decimal_small decimal_big digitChar_def

lemma shortest_1e21: "shortest (10 ^ 21) = 10 ^ 21"
  by (simp add: shortest_unfold round_unfold)

lemma natToString_1e21: "natToString (10 ^ 21) = ''1e+21''"
  unfolding natToString_def shortest_1e21
  by (simp add: plainOrExponent_def decimal_small decimal_big
      digitChar_def stripZeros_step stripZeros_stop)

lemma formatTime_6e22: "formatTime (6 * 10 ^ 22) = ''1e+21:00''"
proof -
  have m: "nat \<lfloor>fdiv (6 * 10 ^ 22) 60\<rfloor> = 10 ^ 21"
    unfolding fdiv_6e22 by simp
  have nonneg: "\<not> \<lfloor>fdiv (6 * 10 ^ 22) 60\<rfloor> < 0"
    unfolding fdiv_6e22 by simp
  have s: "\<lfloor>jsRemainder (6 * 10 ^ 22) 60\<rfloor> = 0"
    by (simp add: jsRemainder_def jsTrunc_def)
  have zero: "natToString 0 = ''0''"
    by (simp add: natToString_exact plainOrExponent_def decimal_small digitChar_def)
  show ?thesis
    unfolding formatTime_def Let_def numberToString_def s m
    using nonneg zero natToString_1e21 by (simp only: if_False nat_0 minus_zero) (simp add: padStart_def)
qed


text \<open>
  Three large durations, where the rounding of the quotient and the shortest digits show:
  the exact quotient of \<open>10\<^sup>2\<^sup>1\<close> by 60 ends in \<^verbatim>\<open>...666\<close>, and the whole minutes of
  \<open>2\<^sup>5\<^sup>8 + 448\<close> seconds are \<^verbatim>\<open>...536\<close> before rounding.
\<close>

lemma formatTime_1e21: "formatTime (10 ^ 21) = ''16666666666666666000:40''"
proof -
  have q: "fdiv (10 ^ 21) 60 = 16666666666666665984"
    by (simp add: round_unfold)
  have w: "shortest 16666666666666665984 = 16666666666666666000"
    by (simp add: shortest_unfold round_unfold)
  have m: "natToString 16666666666666665984 = ''16666666666666666000''"
    unfolding natToString_def w
    by (simp add: plainOrExponent_def decimal_small decimal_big digitChar_def)
  have s: "\<lfloor>jsRemainder (10 ^ 21) 60\<rfloor> = 40"
    by (simp add: jsRemainder_def jsTrunc_def)
  have forty: "natToString 40 = ''40''"
    by (simp add: natToString_exact plainOrExponent_def decimal_small decimal_big digitChar_def)
  show ?thesis
    unfolding formatTime_def Let_def numberToString_def s q
    using m forty by (simp add: padStart_def)
qed

lemma formatTime_2_58: "formatTime 288230376151712192 = ''4803839602528537:32''"
proof -
  have q: "fdiv 288230376151712192 60 = 4803839602528537"
    by (simp add: round_unfold)
  have m: "natToString 4803839602528537 = ''4803839602528537''"
    by (simp add: natToString_exact plainOrExponent_def decimal_small decimal_big digitChar_def)
  have s: "\<lfloor>jsRemainder 288230376151712192 60\<rfloor> = 32"
    by (simp add: jsRemainder_def jsTrunc_def)
  have sec: "natToString 32 = ''32''"
    by (simp add: natToString_exact plainOrExponent_def decimal_small decimal_big digitChar_def)
  show ?thesis
    unfolding formatTime_def Let_def numberToString_def s q
    using m sec by (simp add: padStart_def)
qed

lemma formatTime_below_6e22:
  "formatTime 59999999999999991611392 = ''999999999999999900000:52''"
proof -
  have q: "fdiv 59999999999999991611392 60 = 999999999999999868928"
    by (simp add: round_unfold)
  have w: "shortest 999999999999999868928 = 999999999999999900000"
    by (simp add: shortest_unfold round_unfold)
  have m: "natToString 999999999999999868928 = ''999999999999999900000''"
    unfolding natToString_def w
    by (simp add: plainOrExponent_def decimal_small decimal_big digitChar_def)
  have s: "\<lfloor>jsRemainder 59999999999999991611392 60\<rfloor> = 52"
    by (simp add: jsRemainder_def jsTrunc_def)
  have sec: "natToString 52 = ''52''"
    by (simp add: natToString_exact plainOrExponent_def decimal_small decimal_big digitChar_def)
  show ?thesis
    unfolding formatTime_def Let_def numberToString_def s q
    using m sec by (simp add: padStart_def)
qed


subsection \<open>The form of the formatted time\<close>

lemma isDigit_digitChar: "isDigit (digitChar n)"
  unfolding isDigit_def digitChar_def by (rule nth_mem) simp

lemma digitChar_upto_5:
  assumes "n < 6"
  shows "digitChar n \<in> set ''012345''"
proof -
  from assms consider "n = 0" | "n = 1" | "n = 2" | "n = 3" | "n = 4" | "n = 5"
    by linarith
  then show ?thesis
    by cases (simp_all add: digitChar_def)
qed

lemma decimal_digits: "list_all isDigit (decimal n)"
proof (induction n rule: decimal.induct)
  case (1 n)
  show ?case
  proof (cases "n < 10")
    case True
    then show ?thesis
      by (simp add: decimal_small isDigit_digitChar)
  next
    case False
    with 1 show ?thesis
      by (simp add: decimal_big isDigit_digitChar)
  qed
qed

lemma padStart_digits:
  assumes "list_all isDigit s"
  shows "list_all isDigit (padStart s 2 CHR ''0'')"
proof -
  have "isDigit CHR ''0''"
    by (simp add: isDigit_def)
  with assms show ?thesis
    by (auto simp add: padStart_def list_all_iff)
qed

lemma padStart_length: "2 \<le> length (padStart s 2 c)"
  by (simp add: padStart_def)

lemma seconds_shape:
  assumes "n < 60"
  shows "\<exists>a b. padStart (decimal n) 2 CHR ''0'' = [a, b] \<and> a \<in> set ''012345'' \<and> isDigit b"
proof (cases "n < 10")
  case True
  then have "padStart (decimal n) 2 CHR ''0'' = [CHR ''0'', digitChar n]"
    by (simp add: decimal_small padStart_def)
  then show ?thesis
    by (simp add: isDigit_digitChar)
next
  case False
  with assms have tens: "n div 10 < 6" "n div 10 < 10"
    by simp_all
  from False have "decimal n = [digitChar (n div 10), digitChar (n mod 10)]"
    using tens by (simp add: decimal_big decimal_small)
  then have "padStart (decimal n) 2 CHR ''0'' = [digitChar (n div 10), digitChar (n mod 10)]"
    by (simp add: padStart_def)
  with tens show ?thesis
    using digitChar_upto_5 [of "n div 10"] isDigit_digitChar [of "n mod 10"]
    by simp
qed

lemma matchesMMSS_I:
  assumes "2 \<le> length ms" "list_all isDigit ms" "a \<in> set ''012345''" "isDigit b"
  shows "matchesMMSS (ms @ '':'' @ [a, b])"
  using assms by (simp add: matchesMMSS_def)

lemma jsRemainder_nonneg:
  assumes "0 \<le> d"
  shows "jsRemainder d 60 = d - 60 * of_int \<lfloor>d / 60\<rfloor>"
  using assms by (simp add: jsRemainder_def jsTrunc_def)

lemma seconds_range:
  assumes "0 \<le> d"
  shows "\<not> \<lfloor>jsRemainder d 60\<rfloor> < 0 \<and> nat \<lfloor>jsRemainder d 60\<rfloor> < 60"
proof -
  define i where "i = \<lfloor>jsRemainder d 60\<rfloor>"
  have lo: "of_int \<lfloor>d / 60\<rfloor> \<le> d / 60" and hi: "d / 60 < of_int \<lfloor>d / 60\<rfloor> + 1"
    by linarith+
  from lo hi have "0 \<le> d - 60 * of_int \<lfloor>d / 60\<rfloor>" "d - 60 * of_int \<lfloor>d / 60\<rfloor> < 60"
    by (simp_all add: field_simps)
  then have "0 \<le> i" "i < 60"
    by (simp_all add: i_def jsRemainder_nonneg [OF assms] floor_less_iff)
  then have "\<not> i < 0 \<and> nat i < 60"
    by linarith
  then show ?thesis
    unfolding i_def .
qed

lemma formatTime_matches:
  assumes "isDouble d" "0 \<le> d" "d < 6 * 10 ^ 22"
  shows "matchesMMSS (formatTime d)"
proof -
  let ?s = "nat \<lfloor>jsRemainder d 60\<rfloor>" and ?m = "nat \<lfloor>fdiv d 60\<rfloor>"
  from seconds_range [OF assms(2)] have s: "?s < 60" and s0: "\<not> \<lfloor>jsRemainder d 60\<rfloor> < 0"
    by blast+
  from minutes_range [OF assms] have m: "?m < 10 ^ 21" and m0: "\<not> \<lfloor>fdiv d 60\<rfloor> < 0"
    by blast+
  from s have "?s < 2 ^ 53"
    by simp
  from natToString_exact [OF this] s have "natToString ?s = decimal ?s"
    by (simp add: plainOrExponent_def)
  with s0 have secs: "padStart (numberToString \<lfloor>jsRemainder d 60\<rfloor>) 2 CHR ''0''
      = padStart (decimal ?s) 2 CHR ''0''"
    by (simp add: numberToString_def)
  from shortest_below_1e21 [OF m] have "natToString ?m = decimal (shortest ?m)"
    by (simp add: natToString_def plainOrExponent_def)
  with m0 have mins: "padStart (numberToString \<lfloor>fdiv d 60\<rfloor>) 2 CHR ''0''
      = padStart (decimal (shortest ?m)) 2 CHR ''0''"
    by (simp add: numberToString_def)
  obtain a b where ab: "padStart (decimal ?s) 2 CHR ''0'' = [a, b]"
      "a \<in> set ''012345''" "isDigit b"
    using seconds_shape [OF s] by blast
  have "formatTime d = padStart (decimal (shortest ?m)) 2 CHR ''0'' @ '':'' @ [a, b]"
    unfolding formatTime_def Let_def secs mins ab(1) ..
  moreover have "matchesMMSS (padStart (decimal (shortest ?m)) 2 CHR ''0'' @ '':'' @ [a, b])"
    by (rule matchesMMSS_I [OF padStart_length padStart_digits [OF decimal_digits] ab(2,3)])
  ultimately show ?thesis
    by simp
qed

lemma isDouble_3600: "isDouble 3600"
  by (simp add: double_unfold)

lemma isDouble_6e22: "isDouble 60000000000000000000000"
  by (simp add: double_unfold)

text \<open>
  Claim C7, as the specification states it, fails: \<open>6 \<sqdot> 10\<^sup>2\<^sup>2\<close> is a double and not
  negative; its quotient by 60 is the double \<open>10\<^sup>2\<^sup>1\<close>, which a template literal prints
  in exponent form, so the formatted time is \<^verbatim>\<open>1e+21:00\<close> and does not match the
  pattern.
\<close>

theorem formatTime_pattern_counterexample:
  "isDouble (6 * 10 ^ 22) \<and> (0::real) \<le> 6 * 10 ^ 22
   \<and> fdiv (6 * 10 ^ 22) 60 = 10 ^ 21
   \<and> formatTime (6 * 10 ^ 22) = ''1e+21:00''
   \<and> \<not> matchesMMSS (formatTime (6 * 10 ^ 22))"
  unfolding formatTime_6e22 fdiv_6e22
  by (simp add: isDouble_6e22 matchesMMSS_def isDigit_def)

text \<open>
  Claim C7, amended. For every duration \<open>d\<close> in seconds, a double with
  \<open>0 \<le> d < 6 \<sqdot> 10\<^sup>2\<^sup>2\<close>, the formatted time matches \<^verbatim>\<open>^[0-9]{2,}:[0-5][0-9]$\<close>:
  minutes and seconds are each padded with zeros to at least two digits, and the minutes
  go beyond 59. In particular the formatted time of 0 is \<^verbatim>\<open>00:00\<close>, of 65 is
  \<^verbatim>\<open>01:05\<close> and of 3600 is \<^verbatim>\<open>60:00\<close>. In an unloaded state the rendered time text
  is \<^verbatim>\<open>00:00 / 00:00\<close>.
\<close>

theorem formatTime_pattern:
  "(isDouble d \<and> 0 \<le> d \<and> d < 6 * 10 ^ 22 \<longrightarrow> matchesMMSS (formatTime d))
   \<and> formatTime 0 = ''00:00''
   \<and> formatTime 65 = ''01:05''
   \<and> formatTime 3600 = ''60:00''
   \<and> (playback w = Unloaded \<longrightarrow> timeText (AudioPlayer props w) = ''00:00 / 00:00'')"
  by (simp add: formatTime_matches formatTime_0 formatTime_65 formatTime_3600 AudioPlayer_def)

theorem formatTime_pattern_witness:
  "isDouble 3600 \<and> (0::real) \<le> 3600 \<and> (3600::real) < 6 * 10 ^ 22
   \<and> matchesMMSS (formatTime 3600)
   \<and> matchesMMSS ''60:00''
   \<and> playback initialWorld = Unloaded
   \<and> timeText (AudioPlayer exampleProps initialWorld) = ''00:00 / 00:00''"
proof -
  have unloaded: "playback initialWorld = Unloaded"
    by (simp add: initialWorld_def initialPlaybackState_def)
  have range: "isDouble 3600 \<and> (0::real) \<le> 3600 \<and> (3600::real) < 6 * 10 ^ 22"
    by (simp add: isDouble_3600)
  from formatTime_pattern [of 3600 initialWorld exampleProps] range unloaded
  have "matchesMMSS (formatTime 3600)" "formatTime 3600 = ''60:00''"
    "timeText (AudioPlayer exampleProps initialWorld) = ''00:00 / 00:00''"
    by blast+
  with range unloaded show ?thesis
    by simp
qed

section \<open>The life of the component: acquire and release\<close>

lemma consistent_initial: "consistent initialWorld"
  by (simp add: consistent_def initialWorld_def initialPlaybackState_def current_def)

lemmas onPress_unfold =
  playOnPress_def repeatOnPress_def slowerOnPress_def fasterOnPress_def
  pitchOnPress_def muteOnPress_def callSound_def

lemma onPress_frame:
  "playback (onPress c w) = playback w \<and> error (onPress c w) = error w
   \<and> created (onPress c w) = created w \<and> listening (onPress c w) = listening w
   \<and> phase (onPress c w) = phase w"
  by (cases c; cases "playback w") (simp_all add: onPress_unfold)

lemma onPress_calls:
  "(sd, cl) \<in> set (calls (onPress c w)) \<Longrightarrow>
     (sd, cl) \<in> set (calls w) \<or> (\<exists>p. playback w = Loaded p \<and> sd = sound p)"
  by (cases c; cases "playback w") (auto simp add: onPress_unfold split: if_splits)

lemma onPress_unloads: "unloads sd (onPress c w) = unloads sd w"
  by (cases c; cases "playback w") (simp_all add: onPress_unfold unloads_def)

lemma consistent_onPress:
  assumes "consistent w"
  shows "consistent (onPress c w)"
  unfolding consistent_def
proof (intro conjI allI impI)
  fix sd cl
  assume "(sd, cl) \<in> set (calls (onPress c w))"
  from onPress_calls [OF this] assms show "sd < created (onPress c w)"
    by (auto simp add: consistent_def onPress_frame)
qed (use assms in \<open>simp_all add: consistent_def current_def onPress_frame onPress_unloads\<close>)

lemma consistent_status:
  assumes "consistent w" "s \<in> set (listening w)"
  shows "consistent (handlePlaybackStatusUpdate s status w)"
  using assms
  by (cases status)
    (auto simp add: consistent_def current_def unloads_def split: Phase.splits)

lemma consistent_setError:
  assumes "consistent w"
  shows "consistent (w\<lparr>error := e\<rparr>)"
  using assms by (simp add: consistent_def current_def unloads_def)

lemma consistent_rerender:
  assumes "consistent w" "phase w = Mounted old sd"
  shows "consistent (w\<lparr>phase := Mounted props sd\<rparr>)"
  using assms by (simp add: consistent_def current_def unloads_def)

lemma cleanup_eq:
  "cleanup sd w =
     w\<lparr>playback := Unloaded, listening := removeAll sd (listening w),
       calls := calls w @ [(sd, SetOnPlaybackStatusUpdate False), (sd, UnloadAsync)]\<rparr>"
  by (simp add: cleanup_def setOnPlaybackStatusUpdate_def callSound_def)

lemma effect_eq:
  "effect props w =
     (created w,
      w\<lparr>created := Suc (created w), listening := created w # removeAll (created w) (listening w),
        calls := calls w @ [(created w, SetOnPlaybackStatusUpdate True),
                            (created w, LoadAsync (source props) 150)]\<rparr>)"
  by (simp add: effect_def Let_def setOnPlaybackStatusUpdate_def callSound_def)

lemma consistent_unmount:
  assumes "consistent w" "phase w = Mounted old sd"
  shows "consistent ((cleanup sd w)\<lparr>phase := Gone\<rparr>)"
  using assms by (auto simp add: cleanup_eq consistent_def current_def unloads_def)

lemma consistent_mount:
  assumes "consistent w" "current w = None"
  shows "consistent ((snd (effect props w))\<lparr>phase := Mounted props (fst (effect props w))\<rparr>)"
proof -
  have fresh: "count_list (calls w) (created w, UnloadAsync) = 0"
    using assms(1) by (auto simp add: consistent_def count_list_0_iff)
  show ?thesis
    using assms fresh
    by (auto simp add: effect_eq consistent_def current_def unloads_def less_Suc_eq)
qed

lemma consistent_released:
  assumes "consistent w" "phase w = Mounted old sd"
  shows "consistent ((cleanup sd w)\<lparr>phase := Gone\<rparr>) \<and> current ((cleanup sd w)\<lparr>phase := Gone\<rparr>) = None"
  using consistent_unmount [OF assms] by (simp add: current_def)

lemma consistent_source_change:
  assumes "consistent w" "phase w = Mounted old sd"
  shows "consistent ((snd (effect props (cleanup sd w)))
           \<lparr>phase := Mounted props (fst (effect props (cleanup sd w)))\<rparr>)"
proof -
  have fresh: "count_list (calls w) (created w, UnloadAsync) = 0"
    using assms(1) by (auto simp add: consistent_def count_list_0_iff)
  show ?thesis
    using assms fresh
    by (auto simp add: effect_eq cleanup_eq consistent_def current_def unloads_def less_Suc_eq)
qed

lemma consistent_step:
  assumes "consistent w"
  shows "consistent (step ev w)"
proof (cases "phase w")
  case Fresh
  then have none: "current w = None"
    by (simp add: current_def)
  show ?thesis
  proof (cases ev)
    case (Mount props)
    with Fresh consistent_mount [OF assms none, of props] show ?thesis
      by (simp add: step_def split_beta)
  qed (use Fresh assms in \<open>simp_all add: step_def\<close>)
next
  case (Mounted old sd)
  show ?thesis
  proof (cases ev)
    case (Mount props)
    with Mounted assms show ?thesis
      by (simp add: step_def)
  next
    case (Render props)
    with Mounted consistent_rerender [OF assms Mounted, of props]
      consistent_source_change [OF assms Mounted, of props]
    show ?thesis
      by (simp add: step_def split_beta)
  next
    case Unmount
    with Mounted consistent_unmount [OF assms Mounted] show ?thesis
      by (simp add: step_def)
  next
    case (Status s status)
    with Mounted assms consistent_status [of w s status] show ?thesis
      by (simp add: step_def)
  next
    case (LoadRejected s e)
    with Mounted assms consistent_setError [OF assms, of e] show ?thesis
      by (simp add: step_def)
  next
    case (Press c)
    with Mounted assms consistent_onPress [OF assms, of c] show ?thesis
      by (simp add: step_def)
  qed
next
  case Gone
  with assms show ?thesis
    by (cases ev) (simp_all add: step_def)
qed

lemma consistent_run:
  assumes "consistent w"
  shows "consistent (run evs w)"
  using assms by (induction evs arbitrary: w) (simp_all add: consistent_step)

lemma gone_stays:
  "phase w = Gone \<Longrightarrow> run evs w = w"
  by (induction evs) (simp_all add: step_def)

lemma status_keeps_phase: "phase (handlePlaybackStatusUpdate s status w) = phase w"
  by (cases status) simp_all

lemma unloaded_when_gone:
  "phase w \<noteq> Gone \<Longrightarrow> phase (step ev w) = Gone \<Longrightarrow> playback (step ev w) = Unloaded"
  by (cases "phase w"; cases ev)
    (simp_all add: step_def effect_eq cleanup_eq onPress_frame status_keeps_phase
      split: if_splits)

lemma run_snoc: "run (evs @ [ev]) w = step ev (run evs w)"
  by (induction evs arbitrary: w) simp_all

lemma gone_is_unloaded:
  "phase (run evs initialWorld) = Gone \<Longrightarrow> playback (run evs initialWorld) = Unloaded"
proof (induction evs rule: rev_induct)
  case Nil
  then show ?case
    by (simp add: initialWorld_def)
next
  case (snoc ev evs)
  show ?case
  proof (cases "phase (run evs initialWorld) = Gone")
    case True
    with snoc.IH have "playback (run evs initialWorld) = Unloaded"
      by simp
    with True show ?thesis
      by (simp add: run_snoc step_def)
  next
    case False
    with snoc.prems show ?thesis
      by (simp add: run_snoc unloaded_when_gone)
  qed
qed

lemma unmount_releases:
  assumes "phase w = Mounted old sd" "unloads sd w = 0"
  shows "calls (step Unmount w)
           = calls w @ [(sd, SetOnPlaybackStatusUpdate False), (sd, UnloadAsync)]
       \<and> playback (step Unmount w) = Unloaded
       \<and> sd \<notin> set (listening (step Unmount w))
       \<and> phase (step Unmount w) = Gone
       \<and> unloads sd (step Unmount w) = 1"
  using assms by (simp add: step_def cleanup_eq unloads_def)

lemma source_change_releases:
  assumes "phase w = Mounted old sd" "unloads sd w = 0" "sd < created w"
    "uri (source props) \<noteq> uri (source old)"
  shows "calls (step (Render props) w)
           = calls w @ [(sd, SetOnPlaybackStatusUpdate False), (sd, UnloadAsync),
                        (created w, SetOnPlaybackStatusUpdate True),
                        (created w, LoadAsync (source props) 150)]
       \<and> playback (step (Render props) w) = Unloaded
       \<and> sd \<notin> set (listening (step (Render props) w))
       \<and> phase (step (Render props) w) = Mounted props (created w)
       \<and> unloads sd (step (Render props) w) = 1"
  using assms by (simp add: step_def cleanup_eq effect_eq unloads_def)

text \<open>
  Claim C9. Take any sequence of events from the initial state: mounts, renders with
  the same or another source, the unmount, status updates, rejected loads and presses,
  in any order, so also an exit before any status of the pending sound has arrived.
  In the state reached, every sound constructed so far has had \<^verbatim>\<open>unloadAsync\<close>
  called exactly once, except the sound of the pending cleanup, which has had it called
  zero times; once the component is unmounted, every constructed sound has had it
  called exactly once, the playback state is \<open>Unloaded\<close> and no callback is installed.
  And each exit from a mounted state, the unmount or a render with another
  \<^verbatim>\<open>uri\<close>, makes on the pending sound the calls
  \<^verbatim>\<open>setOnPlaybackStatusUpdate(null)\<close> and \<^verbatim>\<open>unloadAsync()\<close>, once each, sets the
  playback state to \<open>Unloaded\<close>, and leaves the sound without a callback and
  unloaded exactly once.
\<close>

theorem unload_exactly_once:
  "w = run evs initialWorld \<Longrightarrow>
     (\<forall>sd < created w. unloads sd w = (if current w = Some sd then 0 else 1))
   \<and> (phase w = Gone \<longrightarrow>
        (\<forall>sd < created w. unloads sd w = 1) \<and> playback w = Unloaded \<and> listening w = [])
   \<and> (\<forall>old sd. phase w = Mounted old sd \<longrightarrow>
          calls (step Unmount w)
            = calls w @ [(sd, SetOnPlaybackStatusUpdate False), (sd, UnloadAsync)]
        \<and> playback (step Unmount w) = Unloaded
        \<and> sd \<notin> set (listening (step Unmount w))
        \<and> phase (step Unmount w) = Gone
        \<and> unloads sd (step Unmount w) = 1
        \<and> (\<forall>props. uri (source props) \<noteq> uri (source old) \<longrightarrow>
              calls (step (Render props) w)
                = calls w @ [(sd, SetOnPlaybackStatusUpdate False), (sd, UnloadAsync),
                             (created w, SetOnPlaybackStatusUpdate True),
                             (created w, LoadAsync (source props) 150)]
            \<and> playback (step (Render props) w) = Unloaded
            \<and> sd \<notin> set (listening (step (Render props) w))
            \<and> phase (step (Render props) w) = Mounted props (created w)
            \<and> unloads sd (step (Render props) w) = 1))"
proof -
  assume w: "w = run evs initialWorld"
  have inv: "consistent w"
    unfolding w by (rule consistent_run [OF consistent_initial])
  have counts: "\<forall>sd < created w. unloads sd w = (if current w = Some sd then 0 else 1)"
    using inv by (simp add: consistent_def)
  have gone: "phase w = Gone \<longrightarrow>
      (\<forall>sd < created w. unloads sd w = 1) \<and> playback w = Unloaded \<and> listening w = []"
  proof
    assume g: "phase w = Gone"
    then have "current w = None"
      by (simp add: current_def)
    with inv have "\<forall>sd < created w. unloads sd w = 1" "listening w = []"
      by (simp_all add: consistent_def)
    moreover from g have "playback w = Unloaded"
      unfolding w by (rule gone_is_unloaded)
    ultimately show "(\<forall>sd < created w. unloads sd w = 1) \<and> playback w = Unloaded \<and> listening w = []"
      by simp
  qed
  have exits: "\<forall>old sd. phase w = Mounted old sd \<longrightarrow>
          calls (step Unmount w)
            = calls w @ [(sd, SetOnPlaybackStatusUpdate False), (sd, UnloadAsync)]
        \<and> playback (step Unmount w) = Unloaded
        \<and> sd \<notin> set (listening (step Unmount w))
        \<and> phase (step Unmount w) = Gone
        \<and> unloads sd (step Unmount w) = 1
        \<and> (\<forall>props. uri (source props) \<noteq> uri (source old) \<longrightarrow>
              calls (step (Render props) w)
                = calls w @ [(sd, SetOnPlaybackStatusUpdate False), (sd, UnloadAsync),
                             (created w, SetOnPlaybackStatusUpdate True),
                             (created w, LoadAsync (source props) 150)]
            \<and> playback (step (Render props) w) = Unloaded
            \<and> sd \<notin> set (listening (step (Render props) w))
            \<and> phase (step (Render props) w) = Mounted props (created w)
            \<and> unloads sd (step (Render props) w) = 1)"
  proof (intro allI impI)
    fix old sd
    assume m: "phase w = Mounted old sd"
    then have cur: "current w = Some sd"
      by (simp add: current_def)
    with inv have known: "sd < created w"
      by (simp add: consistent_def)
    with inv cur have zero: "unloads sd w = 0"
      by (simp add: consistent_def)
    show "calls (step Unmount w)
            = calls w @ [(sd, SetOnPlaybackStatusUpdate False), (sd, UnloadAsync)]
        \<and> playback (step Unmount w) = Unloaded
        \<and> sd \<notin> set (listening (step Unmount w))
        \<and> phase (step Unmount w) = Gone
        \<and> unloads sd (step Unmount w) = 1
        \<and> (\<forall>props. uri (source props) \<noteq> uri (source old) \<longrightarrow>
              calls (step (Render props) w)
                = calls w @ [(sd, SetOnPlaybackStatusUpdate False), (sd, UnloadAsync),
                             (created w, SetOnPlaybackStatusUpdate True),
                             (created w, LoadAsync (source props) 150)]
            \<and> playback (step (Render props) w) = Unloaded
            \<and> sd \<notin> set (listening (step (Render props) w))
            \<and> phase (step (Render props) w) = Mounted props (created w)
            \<and> unloads sd (step (Render props) w) = 1)"
      using unmount_releases [OF m zero] source_change_releases [OF m zero known]
      by blast
  qed
  from counts gone exits show ?thesis
    by blast
qed

theorem unload_exactly_once_witness:
  "created (run [Mount exampleProps, Render (exampleProps\<lparr>source := \<lparr>uri = ''b.mp3''\<rparr>\<rparr>), Unmount]
      initialWorld) = 2
   \<and> phase (run [Mount exampleProps, Render (exampleProps\<lparr>source := \<lparr>uri = ''b.mp3''\<rparr>\<rparr>), Unmount]
      initialWorld) = Gone
   \<and> unloads 0 (run [Mount exampleProps, Render (exampleProps\<lparr>source := \<lparr>uri = ''b.mp3''\<rparr>\<rparr>), Unmount]
      initialWorld) = 1
   \<and> unloads 1 (run [Mount exampleProps, Render (exampleProps\<lparr>source := \<lparr>uri = ''b.mp3''\<rparr>\<rparr>), Unmount]
      initialWorld) = 1"
proof -
  let ?w = "run [Mount exampleProps, Render (exampleProps\<lparr>source := \<lparr>uri = ''b.mp3''\<rparr>\<rparr>), Unmount]
      initialWorld"
  have made: "created ?w = 2" and gone: "phase ?w = Gone"
    by (simp_all add: step_def effect_eq cleanup_eq initialWorld_def exampleProps_def)
  from unload_exactly_once [OF refl, of "[Mount exampleProps,
      Render (exampleProps\<lparr>source := \<lparr>uri = ''b.mp3''\<rparr>\<rparr>), Unmount]"] gone
  have "\<forall>sd < created ?w. unloads sd ?w = 1"
    by blast
  with made have "unloads 0 ?w = 1" "unloads 1 ?w = 1"
    by simp_all
  with made gone show ?thesis
    by simp
qed

end
